theory Spec2Isabelle
  imports Complex_Main
begin

section \<open>Shared data model\<close>

subsection \<open>Strings and timestamps\<close>

text \<open>
  Channel names and user names are case-folded with Python's \<^verbatim>\<open>str.lower()\<close>.
  Twitch login names are ASCII, so the model folds the 26 ASCII capitals and leaves
  every other character alone.
\<close>

definition lower_char :: "char \<Rightarrow> char" where
  "lower_char c =
     (case map_of (zip ''ABCDEFGHIJKLMNOPQRSTUVWXYZ'' ''abcdefghijklmnopqrstuvwxyz'') c of
        Some l \<Rightarrow> l
      | None \<Rightarrow> c)"

definition lower :: "string \<Rightarrow> string" where
  "lower s = map lower_char s"

text \<open>
  A \<^verbatim>\<open>datetime\<close> is its calendar fields, counted in microseconds from a fixed
  origin (\<open>wall\<close>), and an optional UTC offset in microseconds (\<open>tzinfo\<close>, \<open>None\<close> for
  a naive value). \<^verbatim>\<open>timedelta(seconds=n)\<close> is \<open>n * 1000000\<close> microseconds.
\<close>

record datetime =
  wall :: int
  tzinfo :: "int option"

definition replace_tzinfo_utc :: "datetime \<Rightarrow> datetime" where
  "replace_tzinfo_utc d = d\<lparr>tzinfo := Some 0\<rparr>"

text \<open>\<^verbatim>\<open>if d.tzinfo is None: d = d.replace(tzinfo=timezone.utc)\<close>\<close>

definition ensure_tz :: "datetime \<Rightarrow> datetime" where
  "ensure_tz d = (if tzinfo d = None then replace_tzinfo_utc d else d)"

text \<open>
  The instant of an aware datetime on the UTC time line. Python compares two aware
  datetimes by these instants; both operands of the comparison in
  \<^verbatim>\<open>get_messages_since\<close> have been made aware before.
\<close>

definition utc_instant :: "datetime \<Rightarrow> int" where
  "utc_instant d = wall d - (case tzinfo d of None \<Rightarrow> 0 | Some off \<Rightarrow> off)"

definition dt_ge :: "datetime \<Rightarrow> datetime \<Rightarrow> bool" where
  "dt_ge a b \<longleftrightarrow> utc_instant b \<le> utc_instant a"

definition minus_seconds :: "datetime \<Rightarrow> int \<Rightarrow> datetime" where
  "minus_seconds d n = d\<lparr>wall := wall d - n * 1000000\<rparr>"

definition plus_seconds :: "datetime \<Rightarrow> int \<Rightarrow> datetime" where
  "plus_seconds d n = d\<lparr>wall := wall d + n * 1000000\<rparr>"

subsection \<open>models/chat\_message.py\<close>

record ChatMessage =
  msg_id :: string
  channel :: string
  username :: string
  content :: string
  timestamp :: datetime
  emotes :: "string list"
  badges :: "string list"

record ChannelMetrics =
  cm_channel :: string
  cm_timestamp :: datetime
  messages_per_second :: real
  messages_last_minute :: nat
  unique_chatters_5min :: nat
  top_emotes :: "(string \<times> nat) list"
  avg_message_length :: real

subsection \<open>collections.deque\<close>

text \<open>
  A deque is its bound (\<open>None\<close> for an unbounded one) and its items, leftmost first.
  \<^verbatim>\<open>append\<close> adds on the right and, when the bound is exceeded, discards one item
  from the left.
\<close>

record 'a deque =
  maxlen :: "nat option"
  items :: "'a list"

definition new_deque :: "nat option \<Rightarrow> 'a deque" where
  "new_deque n = \<lparr>maxlen = n, items = []\<rparr>"

definition deque_append :: "'a deque \<Rightarrow> 'a \<Rightarrow> 'a deque" where
  "deque_append d x =
     (let ys = items d @ [x] in
      d\<lparr>items := (case maxlen d of
                    None \<Rightarrow> ys
                  | Some n \<Rightarrow> if n < length ys then tl ys else ys)\<rparr>)"

section \<open>services/message\_buffer.py\<close>

text \<open>
  \<^verbatim>\<open>MessageBuffer\<close>: one bounded deque per lower-cased channel name. The bound is a
  natural number: a negative \<^verbatim>\<open>maxlen\<close> makes \<^verbatim>\<open>deque()\<close> raise and is no capacity.
\<close>

record MessageBuffer =
  buffers :: "string \<rightharpoonup> ChatMessage deque"
  mb_maxlen :: nat

definition MessageBuffer_init :: "nat \<Rightarrow> MessageBuffer" where
  "MessageBuffer_init n = \<lparr>buffers = Map.empty, mb_maxlen = n\<rparr>"

definition add_message :: "MessageBuffer \<Rightarrow> string \<Rightarrow> ChatMessage \<Rightarrow> MessageBuffer" where
  "add_message self chan message =
     (let chan = lower chan;
          buf = (case buffers self chan of
                   None \<Rightarrow> new_deque (Some (mb_maxlen self))
                 | Some d \<Rightarrow> d)
      in self\<lparr>buffers := (buffers self)(chan \<mapsto> deque_append buf message)\<rparr>)"

text \<open>
  The scan of \<^verbatim>\<open>get_messages_since\<close>: it walks the deque from the newest item to
  the oldest, collects the items that are not older than \<open>since\<close>, and breaks as soon
  as a truthy \<open>limit\<close> is reached.
\<close>

fun scan_since :: "datetime \<Rightarrow> int option \<Rightarrow> ChatMessage list \<Rightarrow> ChatMessage list \<Rightarrow> ChatMessage list" where
  "scan_since since limit [] messages = messages"
| "scan_since since limit (message # rest) messages =
     (let msg_time = ensure_tz (timestamp message) in
      if dt_ge msg_time since then
        (let messages = messages @ [message] in
         (case limit of
            None \<Rightarrow> scan_since since limit rest messages
          | Some l \<Rightarrow>
              if l \<noteq> 0 \<and> l \<le> int (length messages) then messages
              else scan_since since limit rest messages))
      else scan_since since limit rest messages)"

definition get_messages_since :: "MessageBuffer \<Rightarrow> string \<Rightarrow> datetime \<Rightarrow> int option \<Rightarrow> ChatMessage list" where
  "get_messages_since self chan since limit =
     (let chan = lower chan in
      case buffers self chan of
        None \<Rightarrow> []
      | Some d \<Rightarrow>
          (let since = ensure_tz since in
           rev (scan_since since limit (rev (items d)) [])))"

definition get_recent_messages :: "MessageBuffer \<Rightarrow> string \<Rightarrow> int \<Rightarrow> ChatMessage list" where
  "get_recent_messages self chan cnt =
     (let chan = lower chan in
      case buffers self chan of
        None \<Rightarrow> []
      | Some d \<Rightarrow>
          (let start_idx = max 0 (int (length (items d)) - cnt) in
           drop (nat start_idx) (items d)))"

definition get_message_count :: "MessageBuffer \<Rightarrow> string \<Rightarrow> nat" where
  "get_message_count self chan =
     (let chan = lower chan in
      case buffers self chan of
        None \<Rightarrow> 0
      | Some d \<Rightarrow> length (items d))"

text \<open>
  \<^verbatim>\<open>handle_twitch_message\<close> of main.py: every incoming message is inserted under
  its own channel name.
\<close>

definition handle_twitch_message :: "MessageBuffer \<Rightarrow> ChatMessage \<Rightarrow> MessageBuffer" where
  "handle_twitch_message message_buffer message =
     add_message message_buffer (channel message) message"

text \<open>A run of insertions, each with the channel name it is made under.\<close>

definition add_messages :: "MessageBuffer \<Rightarrow> (string \<times> ChatMessage) list \<Rightarrow> MessageBuffer" where
  "add_messages self ins = foldl (\<lambda>b (chan, message). add_message b chan message) self ins"

text \<open>The events inserted for a channel, in insertion order, and the stored window.\<close>

definition inserted_for :: "string \<Rightarrow> (string \<times> ChatMessage) list \<Rightarrow> ChatMessage list" where
  "inserted_for chan ins = map snd (filter (\<lambda>(c, message). lower c = lower chan) ins)"

definition window_of :: "MessageBuffer \<Rightarrow> string \<Rightarrow> ChatMessage list" where
  "window_of self chan = (case buffers self (lower chan) of None \<Rightarrow> [] | Some d \<Rightarrow> items d)"

section \<open>services/metrics\_calculator.py\<close>

text \<open>
  Python's \<^verbatim>\<open>round(x, ndigits)\<close>, on exact reals: to the nearest multiple of
  \<open>10 ^ - ndigits\<close>, a tie going to the even one.
\<close>

definition round_half_even :: "real \<Rightarrow> int" where
  "round_half_even x =
     (let f = \<lfloor>x\<rfloor>; d = x - of_int f in
      if d < 1 / 2 then f
      else if 1 / 2 < d then f + 1
      else if even f then f else f + 1)"

definition py_round :: "real \<Rightarrow> nat \<Rightarrow> real" where
  "py_round x ndigits = of_int (round_half_even (x * 10 ^ ndigits)) / 10 ^ ndigits"

text \<open>
  \<^verbatim>\<open>collections.Counter\<close> is a dict: it keeps its keys in the order of their first
  insertion, which an association list shows. Counting one more token either bumps
  the entry the token has or adds a new entry at the end.
\<close>

fun counter_add :: "('a \<times> nat) list \<Rightarrow> 'a \<Rightarrow> ('a \<times> nat) list" where
  "counter_add [] e = [(e, 1)]"
| "counter_add ((k, n) # rest) e =
     (if k = e then (k, n + 1) # rest else (k, n) # counter_add rest e)"

definition Counter :: "'a list \<Rightarrow> ('a \<times> nat) list" where
  "Counter xs = foldl counter_add [] xs"

text \<open>
  \<^verbatim>\<open>Counter.most_common(n)\<close> is \<^verbatim>\<open>heapq.nlargest(n, items, key=count)\<close>, which the
  library documents as \<^verbatim>\<open>sorted(items, key=count, reverse=True)[:n]\<close>: a stable sort
  by falling count, then the first \<open>n\<close> entries.
\<close>

definition most_common :: "nat \<Rightarrow> ('a \<times> nat) list \<Rightarrow> ('a \<times> nat) list" where
  "most_common n c = take n (sort_key (\<lambda>(k, cnt). - int cnt) c)"

definition get_messages_in_window :: "MessageBuffer \<Rightarrow> string \<Rightarrow> datetime \<Rightarrow> int \<Rightarrow> ChatMessage list" where
  "get_messages_in_window buffer chan now seconds =
     (let since = minus_seconds now seconds in
      get_messages_since buffer chan since None)"

definition count_unique_chatters :: "ChatMessage list \<Rightarrow> nat" where
  "count_unique_chatters messages = card (set (map (\<lambda>msg. lower (username msg)) messages))"

definition get_top_emotes :: "ChatMessage list \<Rightarrow> nat \<Rightarrow> (string \<times> nat) list" where
  "get_top_emotes messages limit =
     (let all_emotes = concat (map emotes messages);
          emote_counts = Counter all_emotes
      in most_common limit emote_counts)"

definition calculate_avg_message_length :: "ChatMessage list \<Rightarrow> real" where
  "calculate_avg_message_length messages =
     (if messages = [] then 0
      else (let total_length = sum_list (map (\<lambda>msg. length (content msg)) messages)
            in py_round (real total_length / real (length messages)) 1))"

text \<open>\<^verbatim>\<open>calculate_metrics\<close>, with the clock reading \<open>now\<close> it takes once at its start.\<close>

definition calculate_metrics :: "MessageBuffer \<Rightarrow> string \<Rightarrow> datetime \<Rightarrow> ChannelMetrics" where
  "calculate_metrics buffer chan now =
     (let messages_1s = get_messages_in_window buffer chan now 1;
          messages_1m = get_messages_in_window buffer chan now 60;
          messages_5m = get_messages_in_window buffer chan now 300
      in \<lparr>cm_channel = chan,
          cm_timestamp = now,
          messages_per_second = real (length messages_1s),
          messages_last_minute = length messages_1m,
          unique_chatters_5min = count_unique_chatters messages_5m,
          top_emotes = get_top_emotes messages_5m 10,
          avg_message_length = calculate_avg_message_length messages_5m\<rparr>)"

section \<open>services/hype\_detector.py\<close>

text \<open>
  The detector reads the clock with \<^verbatim>\<open>datetime.utcnow()\<close>: a naive UTC value, here
  the number of microseconds since the origin, passed in as \<open>now\<close>. Velocities are
  Python floats, modelled by exact reals.
\<close>

datatype error = StatisticsError | ZeroDivisionError

record HypeEvent =
  he_channel :: string
  he_timestamp :: int
  velocity :: real
  baseline_mean :: real
  baseline_std :: real
  multiplier :: real
  he_top_emotes :: "(string \<times> nat) list"

text \<open>The object: its four settings and its two dictionaries.\<close>

record HypeDetector =
  window_seconds :: int
  threshold_std :: real
  cooldown_seconds :: int
  min_velocity :: real
  velocity_windows :: "string \<rightharpoonup> (int \<times> real) list"
  last_hype :: "string \<rightharpoonup> int"

definition HypeDetector_init :: "int \<Rightarrow> real \<Rightarrow> int \<Rightarrow> real \<Rightarrow> HypeDetector" where
  "HypeDetector_init w t c m =
     \<lparr>window_seconds = w, threshold_std = t, cooldown_seconds = c, min_velocity = m,
      velocity_windows = Map.empty, last_hype = Map.empty\<rparr>"

text \<open>\<^verbatim>\<open>(a - b).total_seconds()\<close> for two naive datetimes.\<close>

definition total_seconds :: "int \<Rightarrow> real" where
  "total_seconds micros = real_of_int micros / 1000000"

text \<open>Division raises on a zero divisor.\<close>

definition py_div :: "real \<Rightarrow> real \<Rightarrow> error + real" where
  "py_div a b = (if b = 0 then Inl ZeroDivisionError else Inr (a / b))"

text \<open>
  \<^verbatim>\<open>statistics.mean\<close> and \<^verbatim>\<open>statistics.stdev\<close> (the sample standard deviation, with
  \<open>n - 1\<close> in the denominator); each raises \<^verbatim>\<open>StatisticsError\<close> on too few data.
\<close>

definition statistics_mean :: "real list \<Rightarrow> error + real" where
  "statistics_mean xs =
     (if xs = [] then Inl StatisticsError
      else Inr (sum_list xs / real (length xs)))"

definition statistics_stdev :: "real list \<Rightarrow> error + real" where
  "statistics_stdev xs =
     (if length xs < 2 then Inl StatisticsError
      else (let mu = sum_list xs / real (length xs);
                ss = sum_list (map (\<lambda>x. (x - mu)\<^sup>2) xs)
            in Inr (sqrt (ss / real (length xs - 1)))))"

definition record_velocity :: "HypeDetector \<Rightarrow> string \<Rightarrow> real \<Rightarrow> int \<Rightarrow> HypeDetector" where
  "record_velocity self chan v now =
     (let window = (case velocity_windows self chan of None \<Rightarrow> [] | Some w \<Rightarrow> w);
          window = window @ [(now, v)];
          cutoff = now - window_seconds self * 1000000;
          window = dropWhile (\<lambda>(t, _). t < cutoff) window
      in self\<lparr>velocity_windows := (velocity_windows self)(chan \<mapsto> window)\<rparr>)"

text \<open>
  The statistics of \<^verbatim>\<open>check_for_hype\<close>, inside its \<^verbatim>\<open>try\<close>: the mean, and the
  standard deviation when there is more than one value.
\<close>

definition baseline_stats :: "real list \<Rightarrow> error + (real \<times> real)" where
  "baseline_stats velocities =
     (case statistics_mean velocities of
        Inl e \<Rightarrow> Inl e
      | Inr mean \<Rightarrow>
          if 1 < length velocities then
            (case statistics_stdev velocities of
               Inl e \<Rightarrow> Inl e
             | Inr std \<Rightarrow> Inr (mean, std))
          else Inr (mean, 0))"

text \<open>
  \<^verbatim>\<open>check_for_hype\<close> returns the event, if any, and the detector after the call; an
  exception that leaves the method is \<open>Inl\<close>. \<^verbatim>\<open>StatisticsError\<close> is caught inside.
\<close>

definition check_for_hype ::
  "HypeDetector \<Rightarrow> string \<Rightarrow> real \<Rightarrow> (string \<times> nat) list option \<Rightarrow> int
     \<Rightarrow> error + (HypeEvent option \<times> HypeDetector)" where
  "check_for_hype self chan current_velocity emotes_arg now =
     (if (case last_hype self chan of
            None \<Rightarrow> False
          | Some last_time \<Rightarrow> total_seconds (now - last_time) < real_of_int (cooldown_seconds self))
      then Inr (None, self)
      else if current_velocity < min_velocity self then Inr (None, self)
      else
        (case velocity_windows self chan of
           None \<Rightarrow> Inr (None, self)
         | Some window \<Rightarrow>
             if window = [] \<or> length window < 10 then Inr (None, self)
             else
               (let velocities = map snd window in
                case baseline_stats velocities of
                  Inl StatisticsError \<Rightarrow> Inr (None, self)
                | Inl e \<Rightarrow> Inl e
                | Inr (mean, std0) \<Rightarrow>
                    (let std = (if std0 = 0 then 1 / 10 else std0);
                         threshold = mean + threshold_std self * std
                     in if threshold < current_velocity then
                          (case (if 0 < mean then py_div current_velocity mean
                                 else Inr current_velocity) of
                             Inl e \<Rightarrow> Inl e
                           | Inr mult \<Rightarrow>
                               (let event =
                                      \<lparr>he_channel = chan,
                                       he_timestamp = now,
                                       velocity = current_velocity,
                                       baseline_mean = py_round mean 2,
                                       baseline_std = py_round std 2,
                                       multiplier = py_round mult 2,
                                       he_top_emotes =
                                         (case emotes_arg of None \<Rightarrow> [] | Some es \<Rightarrow> es)\<rparr>
                                in Inr (Some event,
                                        self\<lparr>last_hype := (last_hype self)(chan \<mapsto> now)\<rparr>)))
                        else Inr (None, self)))))"

definition get_baseline :: "HypeDetector \<Rightarrow> string \<Rightarrow> real \<times> real" where
  "get_baseline self chan =
     (case velocity_windows self chan of
        None \<Rightarrow> (0, 0)
      | Some window \<Rightarrow>
          if window = [] \<or> length window < 2 then (0, 0)
          else
            (let velocities = map snd window in
             case statistics_mean velocities of
               Inl e \<Rightarrow> (0, 0)
             | Inr mean \<Rightarrow>
                 (case statistics_stdev velocities of
                    Inl e \<Rightarrow> (0, 0)
                  | Inr std \<Rightarrow> (py_round mean 2, py_round std 2))))"

definition reset_channel :: "HypeDetector \<Rightarrow> string \<Rightarrow> HypeDetector" where
  "reset_channel self chan =
     self\<lparr>velocity_windows := (velocity_windows self)(chan := None),
          last_hype := (last_hype self)(chan := None)\<rparr>"

text \<open>
  The calls made on one detector, and the detector after a run of them. A call whose
  exception leaves the method changes nothing.
\<close>

datatype detector_call =
    RecordVelocity string real int
  | CheckForHype string real "(string \<times> nat) list option" int
  | ResetChannel string

fun detector_step :: "HypeDetector \<Rightarrow> detector_call \<Rightarrow> HypeDetector" where
  "detector_step self (RecordVelocity chan v now) = record_velocity self chan v now"
| "detector_step self (CheckForHype chan v es now) =
     (case check_for_hype self chan v es now of
        Inl e \<Rightarrow> self
      | Inr (ev, self') \<Rightarrow> self')"
| "detector_step self (ResetChannel chan) = reset_channel self chan"

definition detector_run :: "HypeDetector \<Rightarrow> detector_call list \<Rightarrow> HypeDetector" where
  "detector_run self calls = foldl detector_step self calls"

section \<open>api/websockets: the connection managers\<close>



definition set_add :: "'w list \<Rightarrow> 'w \<Rightarrow> 'w list" where
  "set_add s w = (if w \<in> set s then s else s @ [w])"

definition set_discard :: "'w list \<Rightarrow> 'w \<Rightarrow> 'w list" where
  "set_discard s w = removeAll w s"


definition connect :: "'w list \<Rightarrow> 'w \<Rightarrow> 'w list" where
  "connect active_connections websocket = set_add active_connections websocket"

definition disconnect :: "'w list \<Rightarrow> 'w \<Rightarrow> 'w list" where
  "disconnect active_connections websocket = set_discard active_connections websocket"




section \<open>main.py: the broadcast loop\<close>

text \<open>
  The loop is modelled by its control flow. Each call it makes is a step whose end the
  environment gives: the call returns, raises an \<^verbatim>\<open>Exception\<close>, or raises
  \<^verbatim>\<open>asyncio.CancelledError\<close>, which \<^verbatim>\<open>except Exception\<close> does not catch. The result of
  a piece of the loop is the list of the calls it made and the log lines it wrote, in
  order, and the exception that leaves it, if any.
\<close>

datatype exn = Exception | CancelledError

datatype 'a outcome = Returns 'a | Raises exn

datatype action =
    DoCalculateMetrics string
  | DoRecordVelocity string
  | DoCheckForHype string
  | DoRepoCreate string
  | DoBroadcastHype string
  | DoBroadcastMetrics string
  | DoSleep
  | LogHypeError string
  | LogLoopError
  | LogCancelled

text \<open>
  What the environment does in one pass of the \<^verbatim>\<open>for\<close> body; \<open>check_for_hype_res\<close>
  returns \<open>True\<close> when the detector returns an event.
\<close>

record channel_env =
  calculate_metrics_res :: "unit outcome"
  record_velocity_res :: "unit outcome"
  check_for_hype_res :: "bool outcome"
  repo_create_res :: "unit outcome"
  broadcast_hype_res :: "unit outcome"
  broadcast_metrics_res :: "unit outcome"

text \<open>
  One pass of \<^verbatim>\<open>while True\<close>: the channel list read at its start with what happens for
  each channel, the end of the sleep of the \<^verbatim>\<open>try\<close> body, and the end of the sleep of
  the \<^verbatim>\<open>except Exception\<close> handler. \<^verbatim>\<open>asyncio.sleep(1)\<close> returns after its second, or
  is cancelled.
\<close>

datatype sleep_end = Wakes | SleepCancelled

record tick_env =
  channels_list :: "(string \<times> channel_env) list"
  sleep_res :: sleep_end
  handler_sleep_res :: sleep_end

definition invoke :: "action \<Rightarrow> 'a outcome \<Rightarrow> action list \<times> exn option" where
  "invoke a r = ([a], case r of Returns _ \<Rightarrow> None | Raises e \<Rightarrow> Some e)"

definition do_sleep :: "sleep_end \<Rightarrow> action list \<times> exn option" where
  "do_sleep r = ([DoSleep], case r of Wakes \<Rightarrow> None | SleepCancelled \<Rightarrow> Some CancelledError)"

definition seq :: "action list \<times> exn option \<Rightarrow> action list \<times> exn option \<Rightarrow> action list \<times> exn option" where
  "seq p q = (case snd p of None \<Rightarrow> (fst p @ fst q, snd q) | Some e \<Rightarrow> p)"

text \<open>
  The inner \<^verbatim>\<open>try\<close>: save, then broadcast the event; \<^verbatim>\<open>except Exception\<close> logs.
\<close>

definition hype_block :: "string \<Rightarrow> channel_env \<Rightarrow> action list \<times> exn option" where
  "hype_block ch env =
     (let body = seq (invoke (DoRepoCreate ch) (repo_create_res env))
                     (invoke (DoBroadcastHype ch) (broadcast_hype_res env))
      in case snd body of
           Some Exception \<Rightarrow> (fst body @ [LogHypeError ch], None)
         | _ \<Rightarrow> body)"

definition process_channel :: "string \<Rightarrow> channel_env \<Rightarrow> action list \<times> exn option" where
  "process_channel ch env =
     seq (invoke (DoCalculateMetrics ch) (calculate_metrics_res env))
    (seq (invoke (DoRecordVelocity ch) (record_velocity_res env))
    (seq (invoke (DoCheckForHype ch) (check_for_hype_res env))
    (seq (if check_for_hype_res env = Returns True then hype_block ch env else ([], None))
         (invoke (DoBroadcastMetrics ch) (broadcast_metrics_res env)))))"

fun for_channels :: "(string \<times> channel_env) list \<Rightarrow> action list \<times> exn option" where
  "for_channels [] = ([], None)"
| "for_channels ((ch, env) # rest) = seq (process_channel ch env) (for_channels rest)"

text \<open>
  After one pass the loop is still running, has left through \<^verbatim>\<open>break\<close>, or has been
  left by an exception raised inside a handler.
\<close>

datatype loop_status = Running | Broke | Escaped exn

definition tick :: "tick_env \<Rightarrow> action list \<times> loop_status" where
  "tick t =
     (let body = seq (for_channels (channels_list t)) (do_sleep (sleep_res t)) in
      case snd body of
        None \<Rightarrow> (fst body, Running)
      | Some CancelledError \<Rightarrow> (fst body @ [LogCancelled], Broke)
      | Some Exception \<Rightarrow>
          (let handler = seq (fst body @ [LogLoopError], None)
                             (do_sleep (handler_sleep_res t))
           in case snd handler of
                None \<Rightarrow> (fst handler, Running)
              | Some e \<Rightarrow> (fst handler, Escaped e)))"

text \<open>
  \<^verbatim>\<open>while True\<close> over the passes the environment provides: the loop runs for as long
  as there are passes, and stops earlier only by leaving.
\<close>

fun broadcast_metrics_loop :: "tick_env list \<Rightarrow> action list \<times> loop_status" where
  "broadcast_metrics_loop [] = ([], Running)"
| "broadcast_metrics_loop (t # ts) =
     (case tick t of
        (tr, Running) \<Rightarrow> (let (tr', st) = broadcast_metrics_loop ts in (tr @ tr', st))
      | (tr, st) \<Rightarrow> (tr, st))"

text \<open>Whether the environment raises \<^verbatim>\<open>CancelledError\<close> somewhere in a pass.\<close>

definition channel_cancelled :: "channel_env \<Rightarrow> bool" where
  "channel_cancelled env \<longleftrightarrow>
     calculate_metrics_res env = Raises CancelledError
     \<or> record_velocity_res env = Raises CancelledError
     \<or> check_for_hype_res env = Raises CancelledError
     \<or> repo_create_res env = Raises CancelledError
     \<or> broadcast_hype_res env = Raises CancelledError
     \<or> broadcast_metrics_res env = Raises CancelledError"

definition tick_cancelled :: "tick_env \<Rightarrow> bool" where
  "tick_cancelled t \<longleftrightarrow>
     list_ex (\<lambda>(ch, env). channel_cancelled env) (channels_list t)
     \<or> sleep_res t = SleepCancelled
     \<or> handler_sleep_res t = SleepCancelled"

text \<open>Environments of the scenarios.\<close>

definition quiet_env :: channel_env where
  "quiet_env =
     \<lparr>calculate_metrics_res = Returns (), record_velocity_res = Returns (),
      check_for_hype_res = Returns False, repo_create_res = Returns (),
      broadcast_hype_res = Returns (), broadcast_metrics_res = Returns ()\<rparr>"

definition hype_env :: channel_env where
  "hype_env = quiet_env\<lparr>check_for_hype_res := Returns True\<rparr>"

section \<open>Notions of the specification\<close>

text \<open>The \<open>n\<close> most recent items of a sequence, in their order.\<close>

definition last_n :: "nat \<Rightarrow> 'a list \<Rightarrow> 'a list" where
  "last_n n xs = drop (length xs - n) xs"

text \<open>The distinct tokens of a sequence, in the order in which each is first seen.\<close>

fun first_seen :: "'a list \<Rightarrow> 'a list" where
  "first_seen [] = []"
| "first_seen (x # xs) = x # filter (\<lambda>y. y \<noteq> x) (first_seen xs)"

text \<open>The timestamp of an event as the window query reads it.\<close>

definition event_instant :: "ChatMessage \<Rightarrow> int" where
  "event_instant m = utc_instant (ensure_tz (timestamp m))"

text \<open>Events of the scenarios: channel, author, content, time in seconds, emotes.\<close>

definition mk_event :: "string \<Rightarrow> string \<Rightarrow> string \<Rightarrow> int \<Rightarrow> string list \<Rightarrow> ChatMessage" where
  "mk_event c u txt secs es =
     \<lparr>msg_id = u @ txt, channel = c, username = u, content = txt,
      timestamp = \<lparr>wall = secs * 1000000, tzinfo = None\<rparr>, emotes = es, badges = []\<rparr>"

definition ev_A :: ChatMessage where "ev_A = mk_event ''Chat'' ''ann'' ''hello'' 1 [''Kappa'']"
definition ev_B :: ChatMessage where "ev_B = mk_event ''chat'' ''Bob'' ''LUL LUL'' 2 [''LUL'', ''LUL'']"
definition ev_C :: ChatMessage where "ev_C = mk_event ''chat'' ''cy'' ''gg'' 3 []"
definition ev_D :: ChatMessage where "ev_D = mk_event ''chat'' ''bob'' ''Kappa LUL'' 4 [''Kappa'', ''LUL'']"

text \<open>
  The detector of the scenarios: the settings of main.py, and twelve samples of
  velocity 10 recorded for one channel at the seconds 1 to 12.
\<close>

definition steady_detector :: HypeDetector where
  "steady_detector =
     detector_run (HypeDetector_init 60 2 30 5)
       (map (\<lambda>i. RecordVelocity ''chat'' 10 (i * 1000000)) [1, 2, 3, 4, 5, 6, 7, 8, 9, 10, 11, 12])"


section \<open>Channel window: bound and contents\<close>

lemma lower_idem: "lower (lower s) = lower s"
proof -
  have "lower_char (lower_char c) = lower_char c" for c
    by (auto simp: lower_char_def split: if_splits)
  then show ?thesis by (simp add: lower_def)
qed

lemma length_last_n: "length (last_n n xs) = min n (length xs)"
  by (simp add: last_n_def)

lemma last_n_snoc:
  "(let ys = last_n n xs @ [x] in if n < length ys then tl ys else ys) = last_n n (xs @ [x])"
proof (cases "length xs < n")
  case True
  then show ?thesis by (simp add: last_n_def Let_def)
next
  case False
  show ?thesis
  proof (cases n)
    case 0
    then show ?thesis by (simp add: last_n_def Let_def)
  next
    case (Suc k)
    with False have "drop (length xs - n) xs \<noteq> []" by simp
    then have "tl (drop (length xs - n) xs @ [x]) = drop (Suc (length xs - n)) xs @ [x]"
      by (simp add: drop_Suc tl_drop)
    moreover from False have "Suc (length xs) - n = Suc (length xs - n)" by simp
    ultimately show ?thesis using False Suc by (simp add: last_n_def Let_def)
  qed
qed

lemma add_messages_snoc:
  "add_messages b (ins @ [(c, m)]) = add_message (add_messages b ins) c m"
  by (simp add: add_messages_def)

lemma inserted_for_snoc:
  "inserted_for k (ins @ [(c, m)]) =
     (if lower c = lower k then inserted_for k ins @ [m] else inserted_for k ins)"
  by (simp add: inserted_for_def)

lemma inserted_for_empty_iff:
  "inserted_for k ins = [] \<longleftrightarrow> (\<forall>(c, m) \<in> set ins. lower c \<noteq> lower k)"
  by (auto simp: inserted_for_def filter_empty_conv)

lemma buffers_add_message:
  "buffers (add_message b c m) k =
     (if k = lower c
      then Some (deque_append (case buffers b (lower c) of
                                 None \<Rightarrow> new_deque (Some (mb_maxlen b))
                               | Some d \<Rightarrow> d) m)
      else buffers b k)"
  by (simp add: add_message_def Let_def)

lemma mb_maxlen_add_message: "mb_maxlen (add_message b c m) = mb_maxlen b"
  by (simp add: add_message_def Let_def)

lemma deque_append_new: "deque_append (new_deque (Some n)) m = \<lparr>maxlen = Some n, items = last_n n [m]\<rparr>"
  by (simp add: deque_append_def new_deque_def last_n_def Let_def)

lemma deque_append_last_n:
  "deque_append \<lparr>maxlen = Some n, items = last_n n xs\<rparr> m = \<lparr>maxlen = Some n, items = last_n n (xs @ [m])\<rparr>"
  using last_n_snoc [of n xs m] by (simp add: deque_append_def Let_def)

lemma buffers_add_messages:
  "buffers (add_messages (MessageBuffer_init n) ins) (lower k) =
     (if inserted_for k ins = [] then None
      else Some \<lparr>maxlen = Some n, items = last_n n (inserted_for k ins)\<rparr>)
   \<and> mb_maxlen (add_messages (MessageBuffer_init n) ins) = n"
proof (induction ins rule: rev_induct)
  case Nil
  show ?case by (simp add: add_messages_def MessageBuffer_init_def inserted_for_def)
next
  case (snoc p ins)
  obtain c m where p: "p = (c, m)" by (cases p)
  let ?b = "add_messages (MessageBuffer_init n) ins"
  from snoc have mx: "mb_maxlen ?b = n" by simp
  show ?case
  proof (cases "lower c = lower k")
    case True
    show ?thesis
    proof (cases "inserted_for k ins = []")
      case e: True
      with snoc True have "buffers ?b (lower c) = None" by simp
      with True e mx show ?thesis
        unfolding p add_messages_snoc inserted_for_snoc
        by (simp add: buffers_add_message mb_maxlen_add_message deque_append_new)
    next
      case ne: False
      with snoc True have "buffers ?b (lower c) = Some \<lparr>maxlen = Some n, items = last_n n (inserted_for k ins)\<rparr>"
        by simp
      with True ne mx show ?thesis
        unfolding p add_messages_snoc inserted_for_snoc
        by (simp add: buffers_add_message mb_maxlen_add_message deque_append_last_n)
    qed
  next
    case False
    with snoc mx show ?thesis
      unfolding p add_messages_snoc inserted_for_snoc
      by (simp add: buffers_add_message mb_maxlen_add_message)
  qed
qed


lemma window_of_add_messages:
  "window_of (add_messages (MessageBuffer_init n) ins) chan = last_n n (inserted_for chan ins)"
  using buffers_add_messages [of n ins chan]
  by (simp add: window_of_def last_n_def)

lemma get_message_count_window: "get_message_count b chan = length (window_of b chan)"
  by (simp add: get_message_count_def window_of_def split: option.splits)

lemma window_of_add_message_full:
  assumes "length (window_of (add_messages (MessageBuffer_init n) ins) chan) = n"
  shows "window_of (add_message (add_messages (MessageBuffer_init n) ins) chan m) chan =
           (if n = 0 then [] else tl (window_of (add_messages (MessageBuffer_init n) ins) chan) @ [m])"
proof -
  let ?xs = "inserted_for chan ins"
  have "add_message (add_messages (MessageBuffer_init n) ins) chan m =
          add_messages (MessageBuffer_init n) (ins @ [(chan, m)])"
    by (simp add: add_messages_snoc)
  then have new: "window_of (add_message (add_messages (MessageBuffer_init n) ins) chan m) chan =
          last_n n (?xs @ [m])"
    by (simp add: window_of_add_messages inserted_for_snoc)
  from assms have len: "length (last_n n ?xs) = n"
    by (simp add: window_of_add_messages)
  have "last_n n (?xs @ [m]) = tl (last_n n ?xs @ [m])"
    using last_n_snoc [of n ?xs m] len by (simp add: Let_def)
  also have "\<dots> = (if n = 0 then [] else tl (last_n n ?xs) @ [m])"
    using len by (cases "last_n n ?xs") auto
  finally show ?thesis using new by (simp add: window_of_add_messages)
qed

text \<open>
  C3. After any run of insertions into a buffer of capacity \<open>n\<close>, the window of every
  channel holds \<open>min\<close> (number of events inserted for the channel, \<open>n\<close>) events, namely
  the most recent ones in insertion order; and inserting into a full window drops
  exactly its oldest event (with capacity \<open>0\<close> the window stays empty).
\<close>

theorem bounded_window:
  "get_message_count (add_messages (MessageBuffer_init n) ins) chan
       = min (length (inserted_for chan ins)) n
   \<and> window_of (add_messages (MessageBuffer_init n) ins) chan = last_n n (inserted_for chan ins)
   \<and> (length (window_of (add_messages (MessageBuffer_init n) ins) chan) = n \<longrightarrow>
        window_of (add_message (add_messages (MessageBuffer_init n) ins) chan m) chan =
          (if n = 0 then []
           else tl (window_of (add_messages (MessageBuffer_init n) ins) chan) @ [m]))"
proof (intro conjI impI)
  show "get_message_count (add_messages (MessageBuffer_init n) ins) chan
          = min (length (inserted_for chan ins)) n"
    by (simp add: get_message_count_window window_of_add_messages length_last_n min.commute)
  show "window_of (add_messages (MessageBuffer_init n) ins) chan = last_n n (inserted_for chan ins)"
    by (rule window_of_add_messages)
next
  assume "length (window_of (add_messages (MessageBuffer_init n) ins) chan) = n"
  then show "window_of (add_message (add_messages (MessageBuffer_init n) ins) chan m) chan =
          (if n = 0 then []
           else tl (window_of (add_messages (MessageBuffer_init n) ins) chan) @ [m])"
    by (rule window_of_add_message_full)
qed

lemma lower_chat: "lower ''Chat'' = ''chat''" "lower ''chat'' = ''chat''" "lower ''CHAT'' = ''chat''"
  by (simp_all add: lower_def lower_char_def)

theorem bounded_window_witness:
  "length (window_of (add_messages (MessageBuffer_init 3)
       [(''Chat'', ev_A), (''chat'', ev_B), (''CHAT'', ev_C)]) ''chat'') = 3
   \<and> window_of (add_message (add_messages (MessageBuffer_init 3)
       [(''Chat'', ev_A), (''chat'', ev_B), (''CHAT'', ev_C)]) ''chat'' ev_D) ''chat''
     = [ev_B, ev_C, ev_D]"
  using bounded_window [of 3 "[(''Chat'', ev_A), (''chat'', ev_B), (''CHAT'', ev_C)]" "''chat''" ev_D]
  by (simp add: inserted_for_def last_n_def lower_chat)

section \<open>Channel window: the query by time\<close>

lemma scan_since_no_limit:
  "scan_since since None xs acc = acc @ filter (\<lambda>m. dt_ge (ensure_tz (timestamp m)) since) xs"
  by (induction xs arbitrary: acc) (simp_all add: Let_def)

lemma get_messages_since_window:
  "get_messages_since b chan since None =
     filter (\<lambda>m. utc_instant (ensure_tz since) \<le> event_instant m) (window_of b chan)"
  by (simp add: get_messages_since_def window_of_def scan_since_no_limit rev_filter
      dt_ge_def event_instant_def Let_def split: option.splits)

lemma instant_plus_seconds:
  "utc_instant (ensure_tz (plus_seconds d n)) = utc_instant (ensure_tz d) + n * 1000000"
  by (simp add: utc_instant_def ensure_tz_def plus_seconds_def replace_tzinfo_utc_def)

lemma instant_minus_seconds:
  "utc_instant (ensure_tz (minus_seconds d n)) = utc_instant (ensure_tz d) - n * 1000000"
  by (simp add: utc_instant_def ensure_tz_def minus_seconds_def replace_tzinfo_utc_def)

lemma window_four_into_three:
  "window_of (add_messages (MessageBuffer_init 3) [(chan, a), (chan, b), (chan, c), (chan, d)]) chan
     = [b, c, d]"
  by (simp add: window_of_add_messages inserted_for_def last_n_def)

text \<open>
  C4. A query with no limit returns exactly the stored events whose timestamp is not
  before \<open>since\<close> (a naive timestamp read as UTC, as the code reads it), in arrival
  order, and nothing for a channel without a buffer. With capacity 3 and insertions
  A, B, C, D the window is [B, C, D]; for events whose timestamps follow their
  arrival order, the query since B's timestamp returns [B, C, D] and the query since
  one second after D's timestamp returns nothing.
\<close>

theorem get_messages_since_exact:
  "get_messages_since buf chan since None =
       filter (\<lambda>m. utc_instant (ensure_tz since) \<le> event_instant m) (window_of buf chan)
   \<and> (buffers buf (lower chan) = None \<longrightarrow> get_messages_since buf chan since None = [])
   \<and> window_of (add_messages (MessageBuffer_init 3) [(chan, a), (chan, b), (chan, c), (chan, d)]) chan
       = [b, c, d]
   \<and> (event_instant b \<le> event_instant c \<and> event_instant c \<le> event_instant d \<longrightarrow>
        get_messages_since
          (add_messages (MessageBuffer_init 3) [(chan, a), (chan, b), (chan, c), (chan, d)])
          chan (timestamp b) None = [b, c, d]
      \<and> get_messages_since
          (add_messages (MessageBuffer_init 3) [(chan, a), (chan, b), (chan, c), (chan, d)])
          chan (plus_seconds (timestamp d) 1) None = [])"
proof (intro conjI impI)
  show "get_messages_since buf chan since None =
       filter (\<lambda>m. utc_instant (ensure_tz since) \<le> event_instant m) (window_of buf chan)"
    by (rule get_messages_since_window)
  show "get_messages_since buf chan since None = []" if "buffers buf (lower chan) = None"
    using that by (simp add: get_messages_since_def)
  show "window_of (add_messages (MessageBuffer_init 3) [(chan, a), (chan, b), (chan, c), (chan, d)]) chan
       = [b, c, d]"
    by (rule window_four_into_three)
next
  assume ord: "event_instant b \<le> event_instant c \<and> event_instant c \<le> event_instant d"
  show "get_messages_since
          (add_messages (MessageBuffer_init 3) [(chan, a), (chan, b), (chan, c), (chan, d)])
          chan (timestamp b) None = [b, c, d]"
    using ord
    by (simp add: get_messages_since_window window_four_into_three event_instant_def)
  show "get_messages_since
          (add_messages (MessageBuffer_init 3) [(chan, a), (chan, b), (chan, c), (chan, d)])
          chan (plus_seconds (timestamp d) 1) None = []"
    using ord
    by (simp add: get_messages_since_window window_four_into_three instant_plus_seconds
        event_instant_def)
qed

lemma event_instants:
  "event_instant ev_A = 1000000" "event_instant ev_B = 2000000"
  "event_instant ev_C = 3000000" "event_instant ev_D = 4000000"
  by (simp_all add: event_instant_def ev_A_def ev_B_def ev_C_def ev_D_def mk_event_def
      ensure_tz_def replace_tzinfo_utc_def utc_instant_def)

theorem get_messages_since_exact_witness:
  "buffers (MessageBuffer_init 3) (lower ''chat'') = None
   \<and> get_messages_since (MessageBuffer_init 3) ''chat'' (timestamp ev_B) None = []
   \<and> event_instant ev_B \<le> event_instant ev_C \<and> event_instant ev_C \<le> event_instant ev_D
   \<and> get_messages_since
        (add_messages (MessageBuffer_init 3)
           [(''chat'', ev_A), (''chat'', ev_B), (''chat'', ev_C), (''chat'', ev_D)])
        ''chat'' (timestamp ev_B) None = [ev_B, ev_C, ev_D]
   \<and> get_messages_since
        (add_messages (MessageBuffer_init 3)
           [(''chat'', ev_A), (''chat'', ev_B), (''chat'', ev_C), (''chat'', ev_D)])
        ''chat'' (plus_seconds (timestamp ev_D) 1) None = []"
proof -
  note t = get_messages_since_exact
    [of "MessageBuffer_init 3" "''chat''" "timestamp ev_B" ev_A ev_B ev_C ev_D]
  have h: "buffers (MessageBuffer_init 3) (lower ''chat'') = None"
    by (simp add: MessageBuffer_init_def)
  from t h have 1: "get_messages_since (MessageBuffer_init 3) ''chat'' (timestamp ev_B) None = []"
    by blast
  have o: "event_instant ev_B \<le> event_instant ev_C \<and> event_instant ev_C \<le> event_instant ev_D"
    by (simp add: event_instants)
  from t o have 2: "get_messages_since
        (add_messages (MessageBuffer_init 3)
           [(''chat'', ev_A), (''chat'', ev_B), (''chat'', ev_C), (''chat'', ev_D)])
        ''chat'' (timestamp ev_B) None = [ev_B, ev_C, ev_D]
   \<and> get_messages_since
        (add_messages (MessageBuffer_init 3)
           [(''chat'', ev_A), (''chat'', ev_B), (''chat'', ev_C), (''chat'', ev_D)])
        ''chat'' (plus_seconds (timestamp ev_D) 1) None = []"
    by blast
  from h 1 o 2 show ?thesis by blast
qed

section \<open>Metrics: counts over the three horizons\<close>

lemma length_filter_mono:
  "(\<And>x. P x \<Longrightarrow> Q x) \<Longrightarrow> length (filter P xs) \<le> length (filter Q xs)"
  by (induction xs) auto

lemma window_count_mono:
  assumes "s1 \<le> s2"
  shows "length (get_messages_in_window buf chan now s1)
           \<le> length (get_messages_in_window buf chan now s2)"
  unfolding get_messages_in_window_def Let_def get_messages_since_window instant_minus_seconds
  using assms by (intro length_filter_mono) simp

text \<open>
  C8. At one evaluation time and one buffer state, the 60-second horizon holds at
  least as many events as the 1-second horizon, and the 300-second horizon at least as
  many as the 60-second horizon; the first two counts are the velocity and the
  per-minute count of the metrics snapshot.
\<close>

theorem horizon_counts_monotone:
  "length (get_messages_in_window buf chan now 1) \<le> length (get_messages_in_window buf chan now 60)
   \<and> length (get_messages_in_window buf chan now 60) \<le> length (get_messages_in_window buf chan now 300)
   \<and> messages_per_second (calculate_metrics buf chan now)
        = real (length (get_messages_in_window buf chan now 1))
   \<and> messages_last_minute (calculate_metrics buf chan now)
        = length (get_messages_in_window buf chan now 60)
   \<and> messages_per_second (calculate_metrics buf chan now)
        \<le> real (messages_last_minute (calculate_metrics buf chan now))"
proof -
  have a: "length (get_messages_in_window buf chan now 1) \<le> length (get_messages_in_window buf chan now 60)"
    by (rule window_count_mono) simp
  have b: "length (get_messages_in_window buf chan now 60) \<le> length (get_messages_in_window buf chan now 300)"
    by (rule window_count_mono) simp
  have c: "messages_per_second (calculate_metrics buf chan now)
        = real (length (get_messages_in_window buf chan now 1))"
    by (simp add: calculate_metrics_def Let_def)
  have d: "messages_last_minute (calculate_metrics buf chan now)
        = length (get_messages_in_window buf chan now 60)"
    by (simp add: calculate_metrics_def Let_def)
  from a b c d show ?thesis by simp
qed

theorem horizon_counts_monotone_witness:
  "length (get_messages_in_window
       (add_messages (MessageBuffer_init 3)
          [(''chat'', ev_A), (''chat'', ev_B), (''chat'', ev_C), (''chat'', ev_D)])
       ''chat'' \<lparr>wall = 4500000, tzinfo = Some 0\<rparr> 1) = 1
   \<and> messages_per_second (calculate_metrics
       (add_messages (MessageBuffer_init 3)
          [(''chat'', ev_A), (''chat'', ev_B), (''chat'', ev_C), (''chat'', ev_D)])
       ''chat'' \<lparr>wall = 4500000, tzinfo = Some 0\<rparr>) = 1
   \<and> messages_last_minute (calculate_metrics
       (add_messages (MessageBuffer_init 3)
          [(''chat'', ev_A), (''chat'', ev_B), (''chat'', ev_C), (''chat'', ev_D)])
       ''chat'' \<lparr>wall = 4500000, tzinfo = Some 0\<rparr>) = 3"
proof -
  have w: "length (get_messages_in_window
       (add_messages (MessageBuffer_init 3)
          [(''chat'', ev_A), (''chat'', ev_B), (''chat'', ev_C), (''chat'', ev_D)])
       ''chat'' \<lparr>wall = 4500000, tzinfo = Some 0\<rparr> n)
     = length (filter (\<lambda>m. 4500000 - n * 1000000 \<le> event_instant m) [ev_B, ev_C, ev_D])" for n
  proof -
    have "utc_instant (ensure_tz \<lparr>wall = 4500000, tzinfo = Some 0\<rparr>) = 4500000"
      by (simp add: utc_instant_def ensure_tz_def)
    then show ?thesis
      by (simp add: get_messages_in_window_def Let_def get_messages_since_window
          window_four_into_three instant_minus_seconds)
  qed
  from horizon_counts_monotone
    [of "add_messages (MessageBuffer_init 3)
          [(''chat'', ev_A), (''chat'', ev_B), (''chat'', ev_C), (''chat'', ev_D)]"
        "''chat''" "\<lparr>wall = 4500000, tzinfo = Some 0\<rparr>"]
  show ?thesis
    by (simp add: w event_instants)
qed

section \<open>Metrics: top emotes\<close>

lemma set_first_seen: "set (first_seen xs) = set xs"
  by (induction xs) auto

lemma distinct_first_seen: "distinct (first_seen xs)"
  by (induction xs) (auto simp: set_first_seen)

lemma first_seen_snoc:
  "first_seen (xs @ [x]) = (if x \<in> set xs then first_seen xs else first_seen xs @ [x])"
  by (induction xs) auto

lemma counter_add_tabulated:
  assumes "distinct ks"
  shows "counter_add (map (\<lambda>e. (e, f e)) ks) x =
           (if x \<in> set ks then map (\<lambda>e. (e, if e = x then f e + 1 else f e)) ks
            else map (\<lambda>e. (e, f e)) ks @ [(x, 1)])"
  using assms
proof (induction ks)
  case Nil
  show ?case by simp
next
  case (Cons k ks)
  show ?case
  proof (cases "k = x")
    case True
    with Cons.prems have "x \<notin> set ks" by simp
    then have "map (\<lambda>e. (e, if e = x then f e + 1 else f e)) ks = map (\<lambda>e. (e, f e)) ks"
      by (intro map_cong) auto
    with True show ?thesis by simp
  next
    case False
    with Cons show ?thesis by simp
  qed
qed

lemma Counter_snoc: "Counter (xs @ [x]) = counter_add (Counter xs) x"
  by (simp add: Counter_def)

lemma Counter_tabulates:
  "Counter xs = map (\<lambda>e. (e, count_list xs e)) (first_seen xs)"
proof (induction xs rule: rev_induct)
  case Nil
  show ?case by (simp add: Counter_def)
next
  case (snoc x xs)
  have "Counter (xs @ [x]) = counter_add (map (\<lambda>e. (e, count_list xs e)) (first_seen xs)) x"
    by (simp add: Counter_snoc snoc.IH)
  also have "\<dots> = (if x \<in> set xs
        then map (\<lambda>e. (e, if e = x then count_list xs e + 1 else count_list xs e)) (first_seen xs)
        else map (\<lambda>e. (e, count_list xs e)) (first_seen xs) @ [(x, 1)])"
    by (simp add: counter_add_tabulated distinct_first_seen set_first_seen)
  also have "\<dots> = map (\<lambda>e. (e, count_list (xs @ [x]) e)) (first_seen (xs @ [x]))"
    by (auto simp: first_seen_snoc set_first_seen)
  finally show ?case .
qed

lemma most_common_all:
  "length c \<le> n \<Longrightarrow> most_common n c = sort_key (\<lambda>(k, cnt). - int cnt) c"
  by (simp add: most_common_def)

lemma most_common_take:
  "length c \<le> n \<Longrightarrow> most_common m c = take m (most_common n c)"
  by (simp add: most_common_def)

lemma length_first_seen: "length (first_seen xs) \<le> length xs"
proof (induction xs)
  case Nil
  show ?case by simp
next
  case (Cons x xs)
  have "length (filter (\<lambda>y. y \<noteq> x) (first_seen xs)) \<le> length (first_seen xs)"
    by (rule length_filter_le)
  also have "\<dots> \<le> length xs" by (rule Cons.IH)
  finally show ?case by simp
qed

lemma length_Counter: "length (Counter xs) \<le> length xs"
  by (simp add: Counter_tabulates length_first_seen)

lemma sorted_most_common: "sorted_wrt (\<lambda>p q. snd q \<le> snd p) (most_common n c)"
proof -
  have "sorted (map (\<lambda>(k, cnt). - int cnt) (sort_key (\<lambda>(k, cnt). - int cnt) c))"
    by (rule sorted_sort_key)
  then have "sorted_wrt (\<lambda>p q. snd q \<le> snd p) (sort_key (\<lambda>(k, cnt). - int cnt) c)"
    by (simp add: sorted_map case_prod_beta)
  then show ?thesis
    unfolding most_common_def by (rule sorted_wrt_take)
qed

lemma ties_in_first_seen_order:
  "map fst (filter (\<lambda>p. snd p = k) (sort_key (\<lambda>(e, cnt). - int cnt) (Counter xs)))
     = filter (\<lambda>e. count_list xs e = k) (first_seen xs)"
proof -
  have "filter (\<lambda>p. snd p = k) (sort_key (\<lambda>(e, cnt). - int cnt) (Counter xs))
      = filter (\<lambda>p. (\<lambda>(e, cnt). - int cnt) p = - int k) (sort_key (\<lambda>(e, cnt). - int cnt) (Counter xs))"
    by (intro filter_cong) (auto simp: case_prod_beta)
  also have "\<dots> = filter (\<lambda>p. (\<lambda>(e, cnt). - int cnt) p = - int k) (Counter xs)"
    by (rule sort_key_stable)
  also have "\<dots> = filter (\<lambda>p. snd p = k) (Counter xs)"
    by (intro filter_cong) (auto simp: case_prod_beta)
  also have "\<dots> = map (\<lambda>e. (e, count_list xs e)) (filter (\<lambda>e. count_list xs e = k) (first_seen xs))"
    by (simp add: Counter_tabulates filter_map comp_def)
  finally show ?thesis by (simp add: comp_def)
qed

text \<open>
  C9. The top-emotes result is the first ten entries of a ranking of the tokens of the
  given messages: the ranking lists each distinct token once, with the number of its
  occurrences across the messages, by falling count, and tokens of equal count stand in
  the order in which they are first seen. The metrics snapshot takes it over the
  messages of the 300-second horizon.
\<close>

theorem top_emotes_ranking:
  fixes messages :: "ChatMessage list"
  defines "tokens \<equiv> concat (map emotes messages)"
  defines "ranking \<equiv> get_top_emotes messages (length (concat (map emotes messages)))"
  shows "get_top_emotes messages 10 = take 10 ranking
       \<and> length (get_top_emotes messages 10) \<le> 10
       \<and> distinct (map fst ranking) \<and> set (map fst ranking) = set tokens
       \<and> map snd ranking = map (\<lambda>p. count_list tokens (fst p)) ranking
       \<and> sorted_wrt (\<lambda>p q. snd q \<le> snd p) ranking
       \<and> map fst (filter (\<lambda>p. snd p = k) ranking)
            = filter (\<lambda>e. count_list tokens e = k) (first_seen tokens)
       \<and> top_emotes (calculate_metrics buf chan now)
            = get_top_emotes (get_messages_in_window buf chan now 300) 10"
proof -
  let ?key = "\<lambda>(e :: string, cnt :: nat). - int cnt"
  have r: "ranking = sort_key ?key (Counter tokens)"
    unfolding ranking_def tokens_def get_top_emotes_def Let_def
    by (rule most_common_all) (rule length_Counter)
  have top: "get_top_emotes messages 10 = take 10 ranking"
    unfolding ranking_def get_top_emotes_def Let_def
    by (rule most_common_take) (rule length_Counter)
  have len: "length (get_top_emotes messages 10) \<le> 10"
    by (simp add: top)
  have "map fst (Counter tokens) = first_seen tokens"
    by (simp add: Counter_tabulates comp_def)
  then have "distinct (map fst (Counter tokens))" and "fst ` set (Counter tokens) = set tokens"
    using distinct_first_seen [of tokens] set_first_seen [of tokens]
    by (simp, metis list.set_map)
  then have keys: "distinct (map fst ranking) \<and> set (map fst ranking) = set tokens"
    by (simp add: r distinct_map)
  have "\<forall>p \<in> set (Counter tokens). snd p = count_list tokens (fst p)"
    by (auto simp: Counter_tabulates)
  then have "\<forall>p \<in> set ranking. snd p = count_list tokens (fst p)"
    by (simp add: r)
  then have counts: "map snd ranking = map (\<lambda>p. count_list tokens (fst p)) ranking"
    by (intro map_cong) auto
  have srt: "sorted_wrt (\<lambda>p q. snd q \<le> snd p) ranking"
    unfolding ranking_def get_top_emotes_def Let_def by (rule sorted_most_common)
  have ties: "map fst (filter (\<lambda>p. snd p = k) ranking)
            = filter (\<lambda>e. count_list tokens e = k) (first_seen tokens)"
    unfolding r by (rule ties_in_first_seen_order)
  have snap: "top_emotes (calculate_metrics buf chan now)
            = get_top_emotes (get_messages_in_window buf chan now 300) 10"
    by (simp add: calculate_metrics_def Let_def)
  from top len keys counts srt ties snap show ?thesis by blast
qed

theorem top_emotes_ranking_witness:
  "get_top_emotes [ev_A, ev_B, ev_C, ev_D] 10 = [(''LUL'', 3), (''Kappa'', 2)]"
proof -
  have v: "get_top_emotes [ev_A, ev_B, ev_C, ev_D]
             (length (concat (map emotes [ev_A, ev_B, ev_C, ev_D])))
     = [(''LUL'', 3), (''Kappa'', 2)]"
    by (simp add: get_top_emotes_def Counter_def most_common_def
        ev_A_def ev_B_def ev_C_def ev_D_def mk_event_def)
  from top_emotes_ranking [of "[ev_A, ev_B, ev_C, ev_D]"]
  have "get_top_emotes [ev_A, ev_B, ev_C, ev_D] 10
      = take 10 (get_top_emotes [ev_A, ev_B, ev_C, ev_D]
                   (length (concat (map emotes [ev_A, ev_B, ev_C, ev_D]))))"
    by blast
  with v show ?thesis by simp
qed

section \<open>Burst detector\<close>

lemma baseline_stats_error: "baseline_stats vs = Inl e \<Longrightarrow> e = StatisticsError"
  by (auto simp: baseline_stats_def statistics_mean_def statistics_stdev_def Let_def
      split: if_splits sum.splits)

lemma baseline_stats_value:
  "2 \<le> length vs \<Longrightarrow> statistics_mean vs = Inr mu \<Longrightarrow> statistics_stdev vs = Inr sd
     \<Longrightarrow> baseline_stats vs = Inr (mu, sd)"
  by (simp add: baseline_stats_def)

lemma check_for_hype_in_cooldown:
  "last_hype s c = Some t \<Longrightarrow> total_seconds (now - t) < real_of_int (cooldown_seconds s)
     \<Longrightarrow> check_for_hype s c v es now = Inr (None, s)"
  by (simp add: check_for_hype_def)

text \<open>The call past its three gates: the comparison with the threshold decides.\<close>

lemma check_for_hype_decides:
  assumes gate: "\<And>t. last_hype s c = Some t
                   \<Longrightarrow> \<not> total_seconds (now - t) < real_of_int (cooldown_seconds s)"
    and floor: "min_velocity s \<le> v"
    and win: "velocity_windows s c = Some w" "10 \<le> length w"
    and stats: "baseline_stats (map snd w) = Inr (mu, sd)"
  shows "check_for_hype s c v es now =
           (if mu + threshold_std s * (if sd = 0 then 1 / 10 else sd) < v
            then Inr (Some \<lparr>he_channel = c, he_timestamp = now, velocity = v,
                            baseline_mean = py_round mu 2,
                            baseline_std = py_round (if sd = 0 then 1 / 10 else sd) 2,
                            multiplier = py_round (if 0 < mu then v / mu else v) 2,
                            he_top_emotes = (case es of None \<Rightarrow> [] | Some l \<Rightarrow> l)\<rparr>,
                      s\<lparr>last_hype := (last_hype s)(c \<mapsto> now)\<rparr>)
            else Inr (None, s))"
proof -
  have g: "\<not> (case last_hype s c of None \<Rightarrow> False
             | Some t \<Rightarrow> total_seconds (now - t) < real_of_int (cooldown_seconds s))"
    using gate by (cases "last_hype s c") auto
  have w: "w \<noteq> []" "\<not> length w < 10" using win by auto
  show ?thesis
    unfolding check_for_hype_def
    using g floor win(1) w stats
    by (simp add: Let_def py_div_def)
qed

lemma check_for_hype_noise_floor:
  "v < min_velocity s \<Longrightarrow> check_for_hype s c v es now = Inr (None, s)"
  by (simp add: check_for_hype_def)

lemma check_for_hype_no_window:
  "velocity_windows s c = None \<Longrightarrow> check_for_hype s c v es now = Inr (None, s)"
  by (simp add: check_for_hype_def)

lemma check_for_hype_few_samples:
  "velocity_windows s c = Some w \<Longrightarrow> length w < 10
     \<Longrightarrow> check_for_hype s c v es now = Inr (None, s)"
  by (simp add: check_for_hype_def)

lemma baseline_stats_defined:
  assumes "2 \<le> length vs"
  shows "\<exists>mu sd. baseline_stats vs = Inr (mu, sd)"
proof -
  from assms have "vs \<noteq> []" "\<not> length vs < 2" "1 < length vs" by auto
  then show ?thesis
    by (simp add: baseline_stats_def statistics_mean_def statistics_stdev_def Let_def)
qed

text \<open>
  Every call returns, and the detector after it is the detector before it, but for the
  last-burst time of the channel when an event is returned.
\<close>

lemma check_for_hype_result:
  "\<exists>r. check_for_hype s c v es now =
          Inr (r, if r = None then s else s\<lparr>last_hype := (last_hype s)(c \<mapsto> now)\<rparr>)"
proof -
  let ?blocked = "\<exists>t. last_hype s c = Some t
                    \<and> total_seconds (now - t) < real_of_int (cooldown_seconds s)"
  consider (cooldown) ?blocked
    | (noise) "v < min_velocity s"
    | (none) "velocity_windows s c = None"
    | (few) w where "velocity_windows s c = Some w" "length w < 10"
    | (stats) w where "\<not> ?blocked" "min_velocity s \<le> v"
        "velocity_windows s c = Some w" "10 \<le> length w"
    by (cases "velocity_windows s c") (meson not_less)+
  then show ?thesis
  proof cases
    case cooldown
    then have "check_for_hype s c v es now = Inr (None, s)"
      by (auto intro: check_for_hype_in_cooldown)
    then show ?thesis by simp
  next
    case noise
    then have "check_for_hype s c v es now = Inr (None, s)"
      by (rule check_for_hype_noise_floor)
    then show ?thesis by simp
  next
    case none
    then have "check_for_hype s c v es now = Inr (None, s)"
      by (rule check_for_hype_no_window)
    then show ?thesis by simp
  next
    case few
    then have "check_for_hype s c v es now = Inr (None, s)"
      by (rule check_for_hype_few_samples)
    then show ?thesis by simp
  next
    case stats
    from stats(4) obtain mu sd where "baseline_stats (map snd w) = Inr (mu, sd)"
      using baseline_stats_defined [of "map snd w"] by auto
    with stats show ?thesis
      using check_for_hype_decides [of s c now v w mu sd es]
      by (cases "mu + threshold_std s * (if sd = 0 then 1 / 10 else sd) < v") auto
  qed
qed

lemma check_for_hype_no_error: "check_for_hype s c v es now \<noteq> Inl e"
  using check_for_hype_result [of s c v es now] by auto

lemma check_for_hype_None: "check_for_hype s c v es now = Inr (None, s') \<Longrightarrow> s' = s"
  using check_for_hype_result [of s c v es now] by auto

lemma check_for_hype_Some:
  "check_for_hype s c v es now = Inr (Some ev, s')
     \<Longrightarrow> s' = s\<lparr>last_hype := (last_hype s)(c \<mapsto> now)\<rparr>"
  using check_for_hype_result [of s c v es now] by auto

lemma check_for_hype_Some_gate:
  "check_for_hype s c v es now = Inr (Some ev, s') \<Longrightarrow> last_hype s c = Some t
     \<Longrightarrow> \<not> total_seconds (now - t) < real_of_int (cooldown_seconds s)"
  using check_for_hype_in_cooldown [of s c t now v es] by auto

lemma total_seconds_less:
  "total_seconds d < real_of_int n \<longleftrightarrow> d < n * 1000000"
proof -
  have "total_seconds d < real_of_int n \<longleftrightarrow> real_of_int d < real_of_int (n * 1000000)"
    by (simp add: total_seconds_def field_simps)
  then show ?thesis by (simp only: of_int_less_iff)
qed


lemma total_seconds_less_30: "total_seconds d < 30 \<longleftrightarrow> d < 30000000"
  using total_seconds_less [of d 30] by simp

subsection \<open>The scenario detector, evaluated\<close>

lemma steady_detector_value:
  "steady_detector =
     \<lparr>window_seconds = 60, threshold_std = 2, cooldown_seconds = 30, min_velocity = 5,
      velocity_windows =
        [''chat'' \<mapsto> map (\<lambda>i. (i * 1000000, 10)) [1, 2, 3, 4, 5, 6, 7, 8, 9, 10, 11, 12]],
      last_hype = Map.empty\<rparr>"
  by (simp add: steady_detector_def detector_run_def HypeDetector_init_def record_velocity_def)

lemma steady_stats:
  "statistics_mean (map snd (map (\<lambda>i. (i * 1000000, 10)) [1, 2, 3, 4, 5, 6, 7, 8, 9, 10, 11, 12 :: int])) = Inr 10"
  "statistics_stdev (map snd (map (\<lambda>i. (i * 1000000, 10)) [1, 2, 3, 4, 5, 6, 7, 8, 9, 10, 11, 12 :: int])) = Inr 0"
  "baseline_stats (map snd (map (\<lambda>i. (i * 1000000, 10)) [1, 2, 3, 4, 5, 6, 7, 8, 9, 10, 11, 12 :: int])) = Inr (10, 0)"
  by (simp_all add: baseline_stats_def statistics_mean_def statistics_stdev_def)

lemma py_round_values:
  "py_round (103 / 100) 2 = 103 / 100" "py_round 10 2 = 10" "py_round (1 / 10) 2 = 1 / 10"
  by (simp_all add: py_round_def round_half_even_def)

subsection \<open>Frame of a check\<close>

text \<open>
  C10. A check that returns no event leaves the detector exactly as it was, whatever the
  reason (cooldown, noise floor, too few samples, velocity not above the threshold);
  a check that returns an event changes the last-burst time of its channel to the time
  of the call, and nothing else. No check ends in an exception.
\<close>

theorem check_for_hype_frame:
  "(\<exists>r s'. check_for_hype s c v es now = Inr (r, s'))
   \<and> (check_for_hype s c v es now = Inr (None, s') \<longrightarrow> s' = s)
   \<and> (check_for_hype s c v es now = Inr (Some ev, s') \<longrightarrow>
        s' = s\<lparr>last_hype := (last_hype s)(c \<mapsto> now)\<rparr>
        \<and> velocity_windows s' = velocity_windows s
        \<and> (\<forall>c'. c' \<noteq> c \<longrightarrow> last_hype s' c' = last_hype s c'))
   \<and> ((\<exists>t. last_hype s c = Some t \<and> total_seconds (now - t) < real_of_int (cooldown_seconds s))
        \<or> v < min_velocity s
        \<or> velocity_windows s c = None
        \<or> (\<exists>w. velocity_windows s c = Some w \<and> length w < 10)
        \<or> (\<exists>w mu sd. velocity_windows s c = Some w \<and> 10 \<le> length w
              \<and> baseline_stats (map snd w) = Inr (mu, sd)
              \<and> v \<le> mu + threshold_std s * (if sd = 0 then 1 / 10 else sd))
       \<longrightarrow> check_for_hype s c v es now = Inr (None, s))"
proof (intro conjI impI)
  show "\<exists>r s'. check_for_hype s c v es now = Inr (r, s')"
    using check_for_hype_result [of s c v es now] by blast
  show "s' = s" if "check_for_hype s c v es now = Inr (None, s')"
    using that by (rule check_for_hype_None)
next
  assume some: "check_for_hype s c v es now = Inr (Some ev, s')"
  then show upd: "s' = s\<lparr>last_hype := (last_hype s)(c \<mapsto> now)\<rparr>"
    by (rule check_for_hype_Some)
  show "velocity_windows s' = velocity_windows s"
    by (simp add: upd)
  show "\<forall>c'. c' \<noteq> c \<longrightarrow> last_hype s' c' = last_hype s c'"
    by (simp add: upd)
next
  assume cause: "(\<exists>t. last_hype s c = Some t \<and> total_seconds (now - t) < real_of_int (cooldown_seconds s))
        \<or> v < min_velocity s
        \<or> velocity_windows s c = None
        \<or> (\<exists>w. velocity_windows s c = Some w \<and> length w < 10)
        \<or> (\<exists>w mu sd. velocity_windows s c = Some w \<and> 10 \<le> length w
              \<and> baseline_stats (map snd w) = Inr (mu, sd)
              \<and> v \<le> mu + threshold_std s * (if sd = 0 then 1 / 10 else sd))"
  show "check_for_hype s c v es now = Inr (None, s)"
  proof (cases "(\<exists>t. last_hype s c = Some t \<and> total_seconds (now - t) < real_of_int (cooldown_seconds s))
        \<or> v < min_velocity s \<or> velocity_windows s c = None
        \<or> (\<exists>w. velocity_windows s c = Some w \<and> length w < 10)")
    case True
    then show ?thesis
      using check_for_hype_in_cooldown [of s c _ now v es] check_for_hype_noise_floor [of v s c es now]
        check_for_hype_no_window [of s c v es now] check_for_hype_few_samples [of s c _ v es now]
      by blast
  next
    case False
    with cause obtain w mu sd where w: "velocity_windows s c = Some w" "10 \<le> length w"
        "baseline_stats (map snd w) = Inr (mu, sd)"
        "v \<le> mu + threshold_std s * (if sd = 0 then 1 / 10 else sd)"
      by blast
    from False have gate: "\<And>t. last_hype s c = Some t
        \<Longrightarrow> \<not> total_seconds (now - t) < real_of_int (cooldown_seconds s)"
      and floor: "min_velocity s \<le> v"
      by auto
    from check_for_hype_decides [OF gate floor w(1) w(2) w(3), of es] w(4)
    show ?thesis by simp
  qed
qed

lemma steady_check_at_threshold:
  "check_for_hype steady_detector ''chat'' (102 / 10) None 13000000 = Inr (None, steady_detector)"
  using steady_stats(3)
  by (simp add: steady_detector_value check_for_hype_def)

lemma steady_check_fires:
  "check_for_hype steady_detector ''chat'' (103 / 10) None 13000000 =
     Inr (Some \<lparr>he_channel = ''chat'', he_timestamp = 13000000, velocity = 103 / 10,
                baseline_mean = 10, baseline_std = 1 / 10, multiplier = 103 / 100,
                he_top_emotes = []\<rparr>,
          steady_detector\<lparr>last_hype := [''chat'' \<mapsto> 13000000]\<rparr>)"
  using steady_stats(3)
  by (simp add: steady_detector_value check_for_hype_def py_div_def py_round_values)

theorem check_for_hype_frame_witness:
  "check_for_hype steady_detector ''chat'' (102 / 10) None 13000000 = Inr (None, steady_detector)
   \<and> check_for_hype steady_detector ''chat'' (103 / 10) None 13000000 =
       Inr (Some \<lparr>he_channel = ''chat'', he_timestamp = 13000000, velocity = 103 / 10,
                  baseline_mean = 10, baseline_std = 1 / 10, multiplier = 103 / 100,
                  he_top_emotes = []\<rparr>,
            steady_detector\<lparr>last_hype := [''chat'' \<mapsto> 13000000]\<rparr>)
   \<and> velocity_windows (steady_detector\<lparr>last_hype := [''chat'' \<mapsto> 13000000]\<rparr>)
       = velocity_windows steady_detector
   \<and> last_hype (steady_detector\<lparr>last_hype := [''chat'' \<mapsto> 13000000]\<rparr>) ''other''
       = last_hype steady_detector ''other''"
proof -
  note fires = steady_check_fires
  from check_for_hype_frame [of steady_detector "''chat''" "103 / 10" None 13000000
      "steady_detector\<lparr>last_hype := [''chat'' \<mapsto> 13000000]\<rparr>"
      "\<lparr>he_channel = ''chat'', he_timestamp = 13000000, velocity = 103 / 10,
                  baseline_mean = 10, baseline_std = 1 / 10, multiplier = 103 / 100,
                  he_top_emotes = []\<rparr>"] fires
  have "velocity_windows (steady_detector\<lparr>last_hype := [''chat'' \<mapsto> 13000000]\<rparr>)
       = velocity_windows steady_detector
     \<and> last_hype (steady_detector\<lparr>last_hype := [''chat'' \<mapsto> 13000000]\<rparr>) ''other''
       = last_hype steady_detector ''other''"
    by simp
  with fires steady_check_at_threshold show ?thesis by blast
qed

subsection \<open>Cooldown\<close>

text \<open>
  While the cooldown is 30 seconds and the channel's last-burst time is not before \<open>T\<close>,
  every call other than a reset of the channel keeps both facts.
\<close>

lemma detector_step_keeps_last_hype:
  assumes cd: "cooldown_seconds s = 30"
    and lh: "last_hype s c = Some t" "T \<le> t"
    and nr: "call \<noteq> ResetChannel c"
  shows "cooldown_seconds (detector_step s call) = 30
         \<and> (\<exists>t'. last_hype (detector_step s call) c = Some t' \<and> T \<le> t')"
proof (cases call)
  case (RecordVelocity ch v now)
  with cd lh show ?thesis by (simp add: record_velocity_def Let_def)
next
  case (ResetChannel ch)
  with nr have "ch \<noteq> c" by simp
  with ResetChannel cd lh show ?thesis by (simp add: reset_channel_def)
next
  case (CheckForHype ch v es now)
  from check_for_hype_result [of s ch v es now]
  obtain r where r: "check_for_hype s ch v es now =
      Inr (r, if r = None then s else s\<lparr>last_hype := (last_hype s)(ch \<mapsto> now)\<rparr>)" ..
  show ?thesis
  proof (cases r)
    case None
    with r CheckForHype cd lh show ?thesis by simp
  next
    case (Some ev)
    with r have fired: "check_for_hype s ch v es now =
        Inr (Some ev, s\<lparr>last_hype := (last_hype s)(ch \<mapsto> now)\<rparr>)" by simp
    show ?thesis
    proof (cases "ch = c")
      case True
      from fired True lh(1) have "\<not> total_seconds (now - t) < real_of_int (cooldown_seconds s)"
        using check_for_hype_Some_gate by blast
      with cd have "\<not> now - t < 30 * 1000000" by (simp add: total_seconds_less_30)
      with lh(2) have "T \<le> now" by simp
      with fired True CheckForHype cd show ?thesis by simp
    next
      case False
      with fired CheckForHype cd lh show ?thesis by simp
    qed
  qed
qed

lemma detector_run_keeps_last_hype:
  assumes "cooldown_seconds s = 30" "last_hype s c = Some t" "T \<le> t"
    and "ResetChannel c \<notin> set calls"
  shows "cooldown_seconds (detector_run s calls) = 30
         \<and> (\<exists>t'. last_hype (detector_run s calls) c = Some t' \<and> T \<le> t')"
  using assms
proof (induction calls arbitrary: s t)
  case Nil
  then show ?case by (simp add: detector_run_def)
next
  case (Cons call calls)
  from Cons.prems have "call \<noteq> ResetChannel c" by auto
  with Cons.prems obtain t' where
      "cooldown_seconds (detector_step s call) = 30"
      "last_hype (detector_step s call) c = Some t'" "T \<le> t'"
    using detector_step_keeps_last_hype [of s c t T call] by blast
  moreover from Cons.prems have "ResetChannel c \<notin> set calls" by simp
  ultimately have "cooldown_seconds (detector_run (detector_step s call) calls) = 30
         \<and> (\<exists>t'. last_hype (detector_run (detector_step s call) calls) c = Some t' \<and> T \<le> t')"
    by (rule Cons.IH)
  then show ?case by (simp add: detector_run_def)
qed

text \<open>
  C5. With a cooldown of 30 seconds: once a check for channel \<open>c\<close> at time \<open>T\<close> has
  returned an event, then after any further calls on the detector that do not reset
  \<open>c\<close>, every check for \<open>c\<close> at a time before \<open>T\<close> + 30 s returns no event, whatever the
  velocity and the samples; and in a detector whose last burst for \<open>c\<close> was at \<open>T\<close>, a
  check at \<open>T\<close> + 31 s returns an event as soon as the velocity reaches the noise floor,
  ten samples are retained and the velocity is above the threshold.
\<close>

theorem cooldown_gate:
  "(cooldown_seconds s0 = 30
      \<and> check_for_hype s0 c v0 es0 T = Inr (Some ev, s1)
      \<and> ResetChannel c \<notin> set calls
      \<and> now < T + 30 * 1000000
     \<longrightarrow> check_for_hype (detector_run s1 calls) c v es now = Inr (None, detector_run s1 calls))
   \<and> (cooldown_seconds s = 30
      \<and> last_hype s c = Some T
      \<and> min_velocity s \<le> v
      \<and> velocity_windows s c = Some w \<and> 10 \<le> length w
      \<and> baseline_stats (map snd w) = Inr (mu, sd)
      \<and> mu + threshold_std s * (if sd = 0 then 1 / 10 else sd) < v
     \<longrightarrow> (\<exists>ev' s'. check_for_hype s c v es (T + 31 * 1000000) = Inr (Some ev', s')))"
proof (intro conjI impI)
  assume a: "cooldown_seconds s0 = 30
      \<and> check_for_hype s0 c v0 es0 T = Inr (Some ev, s1)
      \<and> ResetChannel c \<notin> set calls
      \<and> now < T + 30 * 1000000"
  then have "s1 = s0\<lparr>last_hype := (last_hype s0)(c \<mapsto> T)\<rparr>"
    using check_for_hype_Some by blast
  with a have "cooldown_seconds s1 = 30" "last_hype s1 c = Some T" by simp_all
  with a obtain t' where run: "cooldown_seconds (detector_run s1 calls) = 30"
      "last_hype (detector_run s1 calls) c = Some t'" "T \<le> t'"
    using detector_run_keeps_last_hype [of s1 c T T calls] by auto
  from a run(3) have "now - t' < 30 * 1000000" by simp
  with run(1) have "total_seconds (now - t') < real_of_int (cooldown_seconds (detector_run s1 calls))"
    by (simp add: total_seconds_less_30)
  with run(2) show "check_for_hype (detector_run s1 calls) c v es now = Inr (None, detector_run s1 calls)"
    by (rule check_for_hype_in_cooldown)
next
  assume b: "cooldown_seconds s = 30
      \<and> last_hype s c = Some T
      \<and> min_velocity s \<le> v
      \<and> velocity_windows s c = Some w \<and> 10 \<le> length w
      \<and> baseline_stats (map snd w) = Inr (mu, sd)
      \<and> mu + threshold_std s * (if sd = 0 then 1 / 10 else sd) < v"
  have gate: "\<not> total_seconds (T + 31 * 1000000 - t) < real_of_int (cooldown_seconds s)"
    if "last_hype s c = Some t" for t
    using that b by (simp add: total_seconds_less_30)
  from b have "min_velocity s \<le> v" "velocity_windows s c = Some w" "10 \<le> length w"
      "baseline_stats (map snd w) = Inr (mu, sd)" by simp_all
  from check_for_hype_decides [OF gate this, of es] b
  show "\<exists>ev' s'. check_for_hype s c v es (T + 31 * 1000000) = Inr (Some ev', s')"
    by simp
qed

lemma fired_detector_run:
  "detector_run (steady_detector\<lparr>last_hype := [''chat'' \<mapsto> 13000000]\<rparr>)
     [RecordVelocity ''chat'' 40 14000000, CheckForHype ''other'' 50 None 15000000]
   = steady_detector\<lparr>last_hype := [''chat'' \<mapsto> 13000000],
       velocity_windows :=
         [''chat'' \<mapsto> map (\<lambda>i. (i * 1000000, 10)) [1, 2, 3, 4, 5, 6, 7, 8, 9, 10, 11, 12]
                         @ [(14000000, 40)]]\<rparr>"
  by (simp add: detector_run_def steady_detector_value record_velocity_def check_for_hype_def)

theorem cooldown_gate_witness:
  "check_for_hype steady_detector ''chat'' (103 / 10) None 13000000 =
       Inr (Some \<lparr>he_channel = ''chat'', he_timestamp = 13000000, velocity = 103 / 10,
                  baseline_mean = 10, baseline_std = 1 / 10, multiplier = 103 / 100,
                  he_top_emotes = []\<rparr>,
            steady_detector\<lparr>last_hype := [''chat'' \<mapsto> 13000000]\<rparr>)
   \<and> check_for_hype
        (detector_run (steady_detector\<lparr>last_hype := [''chat'' \<mapsto> 13000000]\<rparr>)
           [RecordVelocity ''chat'' 40 14000000, CheckForHype ''other'' 50 None 15000000])
        ''chat'' 1000 None 42999999
       = Inr (None,
           detector_run (steady_detector\<lparr>last_hype := [''chat'' \<mapsto> 13000000]\<rparr>)
             [RecordVelocity ''chat'' 40 14000000, CheckForHype ''other'' 50 None 15000000])
   \<and> (\<exists>ev' s'. check_for_hype (steady_detector\<lparr>last_hype := [''chat'' \<mapsto> 13000000]\<rparr>)
          ''chat'' 1000 None 44000000 = Inr (Some ev', s'))"
proof -
  note t = cooldown_gate [of steady_detector "''chat''" "103 / 10" None 13000000
      "\<lparr>he_channel = ''chat'', he_timestamp = 13000000, velocity = 103 / 10,
                  baseline_mean = 10, baseline_std = 1 / 10, multiplier = 103 / 100,
                  he_top_emotes = []\<rparr>"
      "steady_detector\<lparr>last_hype := [''chat'' \<mapsto> 13000000]\<rparr>"
      "[RecordVelocity ''chat'' 40 14000000, CheckForHype ''other'' 50 None 15000000]"
      42999999 1000 None
      "steady_detector\<lparr>last_hype := [''chat'' \<mapsto> 13000000]\<rparr>"
      "map (\<lambda>i. (i * 1000000, 10)) [1, 2, 3, 4, 5, 6, 7, 8, 9, 10, 11, 12]" 10 0]
  have h1: "cooldown_seconds steady_detector = 30
      \<and> ResetChannel ''chat'' \<notin> set [RecordVelocity ''chat'' 40 14000000,
                                      CheckForHype ''other'' 50 None 15000000]
      \<and> (42999999 :: int) < 13000000 + 30 * 1000000"
    by (simp add: steady_detector_value)
  from t h1 steady_check_fires have 1: "check_for_hype
        (detector_run (steady_detector\<lparr>last_hype := [''chat'' \<mapsto> 13000000]\<rparr>)
           [RecordVelocity ''chat'' 40 14000000, CheckForHype ''other'' 50 None 15000000])
        ''chat'' 1000 None 42999999
       = Inr (None,
           detector_run (steady_detector\<lparr>last_hype := [''chat'' \<mapsto> 13000000]\<rparr>)
             [RecordVelocity ''chat'' 40 14000000, CheckForHype ''other'' 50 None 15000000])"
    by blast
  have h2: "cooldown_seconds (steady_detector\<lparr>last_hype := [''chat'' \<mapsto> 13000000]\<rparr>) = 30
      \<and> last_hype (steady_detector\<lparr>last_hype := [''chat'' \<mapsto> 13000000]\<rparr>) ''chat''
          = Some 13000000
      \<and> min_velocity (steady_detector\<lparr>last_hype := [''chat'' \<mapsto> 13000000]\<rparr>) \<le> 1000
      \<and> velocity_windows (steady_detector\<lparr>last_hype := [''chat'' \<mapsto> 13000000]\<rparr>) ''chat''
          = Some (map (\<lambda>i. (i * 1000000, 10)) [1, 2, 3, 4, 5, 6, 7, 8, 9, 10, 11, 12])
      \<and> 10 \<le> length (map (\<lambda>i. (i * 1000000, 10 :: real)) [1, 2, 3, 4, 5, 6, 7, 8, 9, 10, 11, 12 :: int])
      \<and> 10 + threshold_std (steady_detector\<lparr>last_hype := [''chat'' \<mapsto> 13000000]\<rparr>)
               * (if (0 :: real) = 0 then 1 / 10 else 0) < 1000"
    by (simp add: steady_detector_value)
  from t h2 steady_stats(3) have 2: "\<exists>ev' s'. check_for_hype
          (steady_detector\<lparr>last_hype := [''chat'' \<mapsto> 13000000]\<rparr>)
          ''chat'' 1000 None (13000000 + 31 * 1000000) = Inr (Some ev', s')"
    by blast
  show ?thesis using steady_check_fires 1 2 by simp
qed

subsection \<open>Zero standard deviation\<close>

lemma stdev_identical:
  assumes "2 \<le> n"
  shows "statistics_stdev (replicate n a) = Inr 0"
proof -
  from assms have n: "real n \<noteq> 0" by simp
  have mu: "sum_list (replicate n a) / real (length (replicate n a)) = a"
    using n by (simp add: sum_list_replicate)
  have ss: "sum_list (map (\<lambda>x. (x - a)\<^sup>2) (replicate n a)) = 0"
    by (simp add: sum_list_replicate)
  from assms have "\<not> length (replicate n a) < 2" by simp
  then show ?thesis
    unfolding statistics_stdev_def Let_def mu ss by simp
qed

text \<open>
  C6. No check ends in a division by zero (or in any other exception). Ten or more
  identical samples have standard deviation zero. When a check that has passed the
  cooldown gate, the noise floor and the ten-sample requirement finds the standard
  deviation zero, it uses 0.1 in its place: it returns an event, with baseline
  deviation 0.1, exactly when the velocity is above mean + multiplier * 0.1, and no
  event otherwise.
\<close>

theorem zero_std_epsilon:
  "(\<forall>e. check_for_hype s c v es now \<noteq> Inl e)
   \<and> (10 \<le> n \<longrightarrow> statistics_stdev (replicate n a) = Inr 0)
   \<and> ((\<forall>t. last_hype s c = Some t
             \<longrightarrow> \<not> total_seconds (now - t) < real_of_int (cooldown_seconds s))
       \<and> min_velocity s \<le> v
       \<and> velocity_windows s c = Some w \<and> 10 \<le> length w
       \<and> statistics_mean (map snd w) = Inr mu
       \<and> statistics_stdev (map snd w) = Inr 0
      \<longrightarrow> check_for_hype s c v es now =
            (if mu + threshold_std s * (1 / 10) < v
             then Inr (Some \<lparr>he_channel = c, he_timestamp = now, velocity = v,
                             baseline_mean = py_round mu 2,
                             baseline_std = 1 / 10,
                             multiplier = py_round (if 0 < mu then v / mu else v) 2,
                             he_top_emotes = (case es of None \<Rightarrow> [] | Some l \<Rightarrow> l)\<rparr>,
                       s\<lparr>last_hype := (last_hype s)(c \<mapsto> now)\<rparr>)
             else Inr (None, s)))"
proof (intro conjI impI allI)
  show "check_for_hype s c v es now \<noteq> Inl e" for e
    by (rule check_for_hype_no_error)
  show "statistics_stdev (replicate n a) = Inr 0" if "10 \<le> n"
    using that by (intro stdev_identical) simp
next
  assume h: "(\<forall>t. last_hype s c = Some t
             \<longrightarrow> \<not> total_seconds (now - t) < real_of_int (cooldown_seconds s))
       \<and> min_velocity s \<le> v
       \<and> velocity_windows s c = Some w \<and> 10 \<le> length w
       \<and> statistics_mean (map snd w) = Inr mu
       \<and> statistics_stdev (map snd w) = Inr 0"
  then have stats: "baseline_stats (map snd w) = Inr (mu, 0)"
    by (intro baseline_stats_value) simp_all
  from h have gate: "\<And>t. last_hype s c = Some t
      \<Longrightarrow> \<not> total_seconds (now - t) < real_of_int (cooldown_seconds s)"
    and rest: "min_velocity s \<le> v" "velocity_windows s c = Some w" "10 \<le> length w"
    by blast+
  from check_for_hype_decides [OF gate rest stats, of es]
  show "check_for_hype s c v es now =
            (if mu + threshold_std s * (1 / 10) < v
             then Inr (Some \<lparr>he_channel = c, he_timestamp = now, velocity = v,
                             baseline_mean = py_round mu 2,
                             baseline_std = 1 / 10,
                             multiplier = py_round (if 0 < mu then v / mu else v) 2,
                             he_top_emotes = (case es of None \<Rightarrow> [] | Some l \<Rightarrow> l)\<rparr>,
                       s\<lparr>last_hype := (last_hype s)(c \<mapsto> now)\<rparr>)
             else Inr (None, s))"
    by (simp add: py_round_values)
qed

theorem zero_std_epsilon_witness:
  "statistics_stdev (replicate 12 10) = Inr 0
   \<and> last_hype steady_detector ''chat'' = None
   \<and> min_velocity steady_detector \<le> 103 / 10
   \<and> velocity_windows steady_detector ''chat''
        = Some (map (\<lambda>i. (i * 1000000, 10)) [1, 2, 3, 4, 5, 6, 7, 8, 9, 10, 11, 12])
   \<and> check_for_hype steady_detector ''chat'' (103 / 10) None 13000000 =
       Inr (Some \<lparr>he_channel = ''chat'', he_timestamp = 13000000, velocity = 103 / 10,
                  baseline_mean = 10, baseline_std = 1 / 10, multiplier = 103 / 100,
                  he_top_emotes = []\<rparr>,
            steady_detector\<lparr>last_hype := [''chat'' \<mapsto> 13000000]\<rparr>)"
proof -
  note t = zero_std_epsilon [of steady_detector "''chat''" "103 / 10" None 13000000 12 10
      "map (\<lambda>i. (i * 1000000, 10)) [1, 2, 3, 4, 5, 6, 7, 8, 9, 10, 11, 12]" 10]
  from t have 1: "statistics_stdev (replicate 12 10) = Inr 0" by simp
  have h: "last_hype steady_detector ''chat'' = None
     \<and> min_velocity steady_detector \<le> 103 / 10
     \<and> velocity_windows steady_detector ''chat''
        = Some (map (\<lambda>i. (i * 1000000, 10)) [1, 2, 3, 4, 5, 6, 7, 8, 9, 10, 11, 12])
     \<and> 10 \<le> length (map (\<lambda>i. (i * 1000000, 10 :: real)) [1, 2, 3, 4, 5, 6, 7, 8, 9, 10, 11, 12 :: int])
     \<and> threshold_std steady_detector = 2"
    by (simp add: steady_detector_value)
  have e: "last_hype steady_detector = Map.empty"
    by (simp add: steady_detector_value)
  from h e t steady_stats(1,2) have 2: "check_for_hype steady_detector ''chat'' (103 / 10) None 13000000 =
       Inr (Some \<lparr>he_channel = ''chat'', he_timestamp = 13000000, velocity = 103 / 10,
                  baseline_mean = 10, baseline_std = 1 / 10, multiplier = 103 / 100,
                  he_top_emotes = []\<rparr>,
            steady_detector\<lparr>last_hype := [''chat'' \<mapsto> 13000000]\<rparr>)"
    by (simp add: py_round_values)
  from 1 h 2 show ?thesis by blast
qed

section \<open>Broadcast registry\<close>









section \<open>Orchestration loop\<close>

lemma seq_assoc: "seq (seq p q) r = seq p (seq q r)"
  by (cases p; cases "snd p") (auto simp: seq_def split: option.splits)

lemma seq_empty: "seq ([], None) q = q"
  by (simp add: seq_def)

lemma seq_raised: "snd p = Some e \<Longrightarrow> seq p q = p"
  by (simp add: seq_def)

lemma seq_completed: "snd p = None \<Longrightarrow> seq p q = (fst p @ fst q, snd q)"
  by (simp add: seq_def)

lemma snd_seq: "snd (seq p q) = (case snd p of None \<Rightarrow> snd q | Some e \<Rightarrow> Some e)"
  by (simp add: seq_def split: option.splits)

lemma snd_invoke: "snd (invoke a r) = (case r of Returns x \<Rightarrow> None | Raises e \<Rightarrow> Some e)"
  by (simp add: invoke_def)

lemma for_channels_append:
  "for_channels (xs @ ys) = seq (for_channels xs) (for_channels ys)"
proof (induction xs)
  case Nil
  show ?case by (simp add: seq_empty)
next
  case (Cons x xs)
  obtain ch env where "x = (ch, env)" by (cases x)
  with Cons show ?case by (simp add: seq_assoc)
qed

text \<open>An exception that leaves the processing of one channel ends the \<^verbatim>\<open>for\<close> loop.\<close>

lemma for_channels_raised:
  assumes "snd (for_channels pre) = None" "snd (process_channel ch env) = Some e"
  shows "for_channels (pre @ (ch, env) # post)
           = (fst (for_channels pre) @ fst (process_channel ch env), Some e)"
proof -
  have "for_channels ((ch, env) # post) = process_channel ch env"
    using assms(2) by (simp add: seq_raised)
  then have "for_channels (pre @ (ch, env) # post)
      = seq (for_channels pre) (process_channel ch env)"
    by (simp add: for_channels_append)
  with assms show ?thesis by (simp add: seq_completed)
qed

subsection \<open>The hype block\<close>

lemma hype_block_save_raises:
  "repo_create_res env = Raises Exception
     \<Longrightarrow> hype_block ch env = ([DoRepoCreate ch, LogHypeError ch], None)"
  by (simp add: hype_block_def seq_def invoke_def)

lemma hype_block_broadcasts:
  "DoBroadcastHype ch \<in> set (fst (hype_block ch env)) \<longleftrightarrow> (\<exists>u. repo_create_res env = Returns u)"
  by (cases "repo_create_res env"; cases "broadcast_hype_res env")
     (auto simp: hype_block_def Let_def seq_def invoke_def split: exn.splits)

lemma process_channel_hype_block:
  assumes "calculate_metrics_res env = Returns u1" "record_velocity_res env = Returns u2"
    "check_for_hype_res env = Returns True"
  shows "process_channel ch env =
           seq ([DoCalculateMetrics ch, DoRecordVelocity ch, DoCheckForHype ch], None)
          (seq (hype_block ch env) (invoke (DoBroadcastMetrics ch) (broadcast_metrics_res env)))"
  using assms by (simp add: process_channel_def seq_def invoke_def)

lemma process_channel_broadcasts_hype:
  "DoBroadcastHype ch \<in> set (fst (process_channel ch env)) \<longleftrightarrow>
     (\<exists>u1 u2 u3. calculate_metrics_res env = Returns u1 \<and> record_velocity_res env = Returns u2
        \<and> check_for_hype_res env = Returns True \<and> repo_create_res env = Returns u3)"
proof (cases "(\<exists>u1. calculate_metrics_res env = Returns u1)
    \<and> (\<exists>u2. record_velocity_res env = Returns u2) \<and> check_for_hype_res env = Returns True")
  case True
  then obtain u1 u2 where "calculate_metrics_res env = Returns u1"
      "record_velocity_res env = Returns u2" "check_for_hype_res env = Returns True"
    by blast
  note p = this process_channel_hype_block [OF this, of ch]
  have "DoBroadcastHype ch \<in> set (fst (process_channel ch env))
      \<longleftrightarrow> DoBroadcastHype ch \<in> set (fst (hype_block ch env))"
    unfolding p(4)
    by (cases "snd (hype_block ch env)") (auto simp: seq_def invoke_def)
  with p(1-3) show ?thesis by (simp add: hype_block_broadcasts)
next
  case False
  then have "DoBroadcastHype ch \<notin> set (fst (process_channel ch env))"
    by (cases "calculate_metrics_res env"; cases "record_velocity_res env";
        cases "check_for_hype_res env")
       (auto simp: process_channel_def seq_def invoke_def)
  with False show ?thesis by auto
qed

text \<open>
  C2, as the code has it. When the save of a detected event raises an exception, the
  error is logged, the event is not broadcast, and the metrics of the channel are
  still broadcast; an event is broadcast only after its save has returned.
\<close>

theorem hype_save_failure:
  "(calculate_metrics_res env = Returns () \<and> record_velocity_res env = Returns ()
      \<and> check_for_hype_res env = Returns True \<and> repo_create_res env = Raises Exception
     \<longrightarrow> fst (process_channel ch env) =
           [DoCalculateMetrics ch, DoRecordVelocity ch, DoCheckForHype ch,
            DoRepoCreate ch, LogHypeError ch, DoBroadcastMetrics ch]
         \<and> snd (process_channel ch env) =
             (case broadcast_metrics_res env of Returns x \<Rightarrow> None | Raises e \<Rightarrow> Some e))
   \<and> (DoBroadcastHype ch \<in> set (fst (process_channel ch env)) \<longleftrightarrow>
        calculate_metrics_res env = Returns () \<and> record_velocity_res env = Returns ()
        \<and> check_for_hype_res env = Returns True \<and> repo_create_res env = Returns ())"
proof (intro conjI impI)
  assume a: "calculate_metrics_res env = Returns () \<and> record_velocity_res env = Returns ()
      \<and> check_for_hype_res env = Returns True \<and> repo_create_res env = Raises Exception"
  then have p: "process_channel ch env =
      seq ([DoCalculateMetrics ch, DoRecordVelocity ch, DoCheckForHype ch], None)
     (seq ([DoRepoCreate ch, LogHypeError ch], None)
          (invoke (DoBroadcastMetrics ch) (broadcast_metrics_res env)))"
    by (simp add: process_channel_hype_block hype_block_save_raises)
  show "fst (process_channel ch env) =
           [DoCalculateMetrics ch, DoRecordVelocity ch, DoCheckForHype ch,
            DoRepoCreate ch, LogHypeError ch, DoBroadcastMetrics ch]"
    unfolding p by (simp add: seq_def invoke_def)
  show "snd (process_channel ch env) =
             (case broadcast_metrics_res env of Returns x \<Rightarrow> None | Raises e \<Rightarrow> Some e)"
    unfolding p by (simp add: seq_def invoke_def)
next
  show "DoBroadcastHype ch \<in> set (fst (process_channel ch env)) \<longleftrightarrow>
        calculate_metrics_res env = Returns () \<and> record_velocity_res env = Returns ()
        \<and> check_for_hype_res env = Returns True \<and> repo_create_res env = Returns ()"
    by (simp add: process_channel_broadcasts_hype)
qed

theorem hype_save_failure_witness:
  "fst (process_channel ''chat'' (hype_env\<lparr>repo_create_res := Raises Exception\<rparr>)) =
       [DoCalculateMetrics ''chat'', DoRecordVelocity ''chat'', DoCheckForHype ''chat'',
        DoRepoCreate ''chat'', LogHypeError ''chat'', DoBroadcastMetrics ''chat'']
   \<and> snd (process_channel ''chat'' (hype_env\<lparr>repo_create_res := Raises Exception\<rparr>)) = None
   \<and> DoBroadcastHype ''chat'' \<in> set (fst (process_channel ''chat'' hype_env))"
  using hype_save_failure [of "hype_env\<lparr>repo_create_res := Raises Exception\<rparr>" "''chat''"]
    hype_save_failure [of hype_env "''chat''"]
  by (simp add: hype_env_def quiet_env_def)

text \<open>
  The claim as the specification states it fails: with a detected event and a save that
  raises, the event is never handed to the burst registry.
\<close>

theorem hype_save_failure_counterexample:
  "check_for_hype_res (hype_env\<lparr>repo_create_res := Raises Exception\<rparr>) = Returns True
   \<and> repo_create_res (hype_env\<lparr>repo_create_res := Raises Exception\<rparr>) = Raises Exception
   \<and> process_channel ''chat'' (hype_env\<lparr>repo_create_res := Raises Exception\<rparr>) =
       ([DoCalculateMetrics ''chat'', DoRecordVelocity ''chat'', DoCheckForHype ''chat'',
         DoRepoCreate ''chat'', LogHypeError ''chat'', DoBroadcastMetrics ''chat''], None)
   \<and> DoBroadcastHype ''chat''
       \<notin> set (fst (process_channel ''chat'' (hype_env\<lparr>repo_create_res := Raises Exception\<rparr>)))"
  by (simp add: hype_env_def quiet_env_def process_channel_def hype_block_def seq_def invoke_def)

subsection \<open>Exceptions and cancellation in a pass\<close>

lemma tick_exception:
  assumes "snd (for_channels chans) = Some Exception"
  shows "tick \<lparr>channels_list = chans, sleep_res = sl, handler_sleep_res = hs\<rparr>
           = (fst (for_channels chans) @ [LogLoopError, DoSleep],
              case hs of Wakes \<Rightarrow> Running | SleepCancelled \<Rightarrow> Escaped CancelledError)"
  using assms
  by (cases hs) (simp_all add: tick_def Let_def seq_def do_sleep_def)

lemma tick_cancelled_in_body:
  assumes "snd (for_channels chans) = Some CancelledError"
  shows "tick \<lparr>channels_list = chans, sleep_res = sl, handler_sleep_res = hs\<rparr>
           = (fst (for_channels chans) @ [LogCancelled], Broke)"
  using assms by (simp add: tick_def Let_def seq_def)

lemma hype_block_not_cancelled:
  assumes "repo_create_res env \<noteq> Raises CancelledError"
    "broadcast_hype_res env \<noteq> Raises CancelledError"
  shows "snd (hype_block ch env) = None"
proof -
  have r: "r = Returns () \<or> r = Raises Exception" if "r \<noteq> Raises CancelledError"
    for r :: "unit outcome"
    using that by (cases r) (auto intro: exn.exhaust)
  from r [OF assms(1)] r [OF assms(2)] show ?thesis
    by (auto simp: hype_block_def Let_def seq_def invoke_def)
qed

lemma process_channel_not_cancelled:
  assumes "\<not> channel_cancelled env"
  shows "snd (process_channel ch env) \<noteq> Some CancelledError"
proof -
  have r: "(\<exists>x. r = Returns x) \<or> r = Raises Exception" if "r \<noteq> Raises CancelledError"
    for r :: "'a outcome"
    using that by (cases r) (auto intro: exn.exhaust)
  from assms have n: "calculate_metrics_res env \<noteq> Raises CancelledError"
      "record_velocity_res env \<noteq> Raises CancelledError"
      "check_for_hype_res env \<noteq> Raises CancelledError"
      "repo_create_res env \<noteq> Raises CancelledError"
      "broadcast_hype_res env \<noteq> Raises CancelledError"
      "broadcast_metrics_res env \<noteq> Raises CancelledError"
    by (simp_all add: channel_cancelled_def)
  have h: "snd (if check_for_hype_res env = Returns True then hype_block ch env else ([], None))
      = None"
    using hype_block_not_cancelled [OF n(4) n(5)] by simp
  from r [OF n(1)] r [OF n(2)] r [OF n(3)] r [OF n(6)] h show ?thesis
    unfolding process_channel_def snd_seq snd_invoke by auto
qed

lemma for_channels_not_cancelled:
  assumes "\<not> list_ex (\<lambda>(ch, env). channel_cancelled env) chans"
  shows "snd (for_channels chans) \<noteq> Some CancelledError"
  using assms
proof (induction chans)
  case Nil
  show ?case by simp
next
  case (Cons x chans)
  obtain ch env where x: "x = (ch, env)" by (cases x)
  with Cons.prems have "\<not> channel_cancelled env" by simp
  then have "snd (process_channel ch env) \<noteq> Some CancelledError"
    by (rule process_channel_not_cancelled)
  moreover from Cons have "snd (for_channels chans) \<noteq> Some CancelledError" by simp
  ultimately show ?case
    unfolding x by (auto simp: snd_seq split: option.splits)
qed

lemma tick_not_cancelled:
  assumes "\<not> tick_cancelled t"
  shows "snd (tick t) = Running"
proof -
  from assms have f: "snd (for_channels (channels_list t)) \<noteq> Some CancelledError"
    and s: "sleep_res t = Wakes"
    and h: "handler_sleep_res t = Wakes"
    by (simp_all add: tick_cancelled_def for_channels_not_cancelled)
       (cases "sleep_res t", simp_all, cases "handler_sleep_res t", simp_all)
  from f have "snd (for_channels (channels_list t)) = None
      \<or> snd (for_channels (channels_list t)) = Some Exception"
    by (cases "snd (for_channels (channels_list t))") (auto intro: exn.exhaust)
  with s h show ?thesis
    by (auto simp: tick_def Let_def seq_def do_sleep_def)
qed

lemma loop_not_cancelled:
  assumes "\<forall>t \<in> set ticks. \<not> tick_cancelled t"
  shows "snd (broadcast_metrics_loop ticks) = Running"
  using assms
proof (induction ticks)
  case Nil
  show ?case by simp
next
  case (Cons t ticks)
  then have "snd (tick t) = Running" "snd (broadcast_metrics_loop ticks) = Running"
    by (simp_all add: tick_not_cancelled)
  then show ?case
    by (cases "tick t"; cases "broadcast_metrics_loop ticks") simp
qed

text \<open>
  C1, as the code has it. An exception that leaves the processing of one channel is
  caught by the handler around the whole pass: it is logged, the remaining channels of
  that pass are not processed, and after the handler's sleep the loop goes on with the
  next pass. The loop stops only when \<^verbatim>\<open>CancelledError\<close> is raised in one of its
  calls; raised inside the processing of a channel, it ends the loop there, with the
  rest of that channel and the remaining channels unprocessed.
\<close>

theorem loop_failure_handling:
  "(snd (for_channels pre) = None \<and> snd (process_channel ch env) = Some Exception
     \<longrightarrow> tick \<lparr>channels_list = pre @ (ch, env) # post, sleep_res = sl,
               handler_sleep_res = Wakes\<rparr>
          = (fst (for_channels pre) @ fst (process_channel ch env) @ [LogLoopError, DoSleep],
             Running))
   \<and> (snd (for_channels pre) = None \<and> snd (process_channel ch env) = Some CancelledError
     \<longrightarrow> tick \<lparr>channels_list = pre @ (ch, env) # post, sleep_res = sl,
               handler_sleep_res = hs\<rparr>
          = (fst (for_channels pre) @ fst (process_channel ch env) @ [LogCancelled], Broke))
   \<and> (snd (broadcast_metrics_loop ticks) \<noteq> Running
     \<longrightarrow> (\<exists>t \<in> set ticks. tick_cancelled t))"
proof (intro conjI impI)
  assume "snd (for_channels pre) = None \<and> snd (process_channel ch env) = Some Exception"
  then have f: "for_channels (pre @ (ch, env) # post)
      = (fst (for_channels pre) @ fst (process_channel ch env), Some Exception)"
    by (simp add: for_channels_raised)
  then have "snd (for_channels (pre @ (ch, env) # post)) = Some Exception" by simp
  from tick_exception [OF this, of sl Wakes] f
  show "tick \<lparr>channels_list = pre @ (ch, env) # post, sleep_res = sl,
               handler_sleep_res = Wakes\<rparr>
          = (fst (for_channels pre) @ fst (process_channel ch env) @ [LogLoopError, DoSleep],
             Running)"
    by simp
next
  assume "snd (for_channels pre) = None \<and> snd (process_channel ch env) = Some CancelledError"
  then have f: "for_channels (pre @ (ch, env) # post)
      = (fst (for_channels pre) @ fst (process_channel ch env), Some CancelledError)"
    by (simp add: for_channels_raised)
  then have "snd (for_channels (pre @ (ch, env) # post)) = Some CancelledError" by simp
  from tick_cancelled_in_body [OF this, of sl hs] f
  show "tick \<lparr>channels_list = pre @ (ch, env) # post, sleep_res = sl,
               handler_sleep_res = hs\<rparr>
          = (fst (for_channels pre) @ fst (process_channel ch env) @ [LogCancelled], Broke)"
    by simp
next
  assume "snd (broadcast_metrics_loop ticks) \<noteq> Running"
  then show "\<exists>t \<in> set ticks. tick_cancelled t"
    using loop_not_cancelled [of ticks] by blast
qed

lemma failing_channel_trace:
  "process_channel ''a'' (quiet_env\<lparr>calculate_metrics_res := Raises Exception\<rparr>)
     = ([DoCalculateMetrics ''a''], Some Exception)"
  by (simp add: quiet_env_def process_channel_def seq_def invoke_def)

lemma cancelled_channel_trace:
  "process_channel ''a'' (hype_env\<lparr>broadcast_hype_res := Raises CancelledError\<rparr>)
     = ([DoCalculateMetrics ''a'', DoRecordVelocity ''a'', DoCheckForHype ''a'',
         DoRepoCreate ''a'', DoBroadcastHype ''a''], Some CancelledError)"
  by (simp add: hype_env_def quiet_env_def process_channel_def hype_block_def seq_def invoke_def)

lemma quiet_channel_trace:
  "process_channel ch quiet_env
     = ([DoCalculateMetrics ch, DoRecordVelocity ch, DoCheckForHype ch, DoBroadcastMetrics ch],
        None)"
  by (simp add: quiet_env_def process_channel_def seq_def invoke_def)

theorem loop_failure_handling_witness:
  "tick \<lparr>channels_list = [(''z'', quiet_env),
                           (''a'', quiet_env\<lparr>calculate_metrics_res := Raises Exception\<rparr>),
                           (''b'', quiet_env)],
         sleep_res = Wakes, handler_sleep_res = Wakes\<rparr>
     = ([DoCalculateMetrics ''z'', DoRecordVelocity ''z'', DoCheckForHype ''z'',
         DoBroadcastMetrics ''z'', DoCalculateMetrics ''a'', LogLoopError, DoSleep], Running)
   \<and> tick \<lparr>channels_list = [(''z'', quiet_env),
                           (''a'', hype_env\<lparr>broadcast_hype_res := Raises CancelledError\<rparr>),
                           (''b'', quiet_env)],
         sleep_res = Wakes, handler_sleep_res = Wakes\<rparr>
     = ([DoCalculateMetrics ''z'', DoRecordVelocity ''z'', DoCheckForHype ''z'',
         DoBroadcastMetrics ''z'', DoCalculateMetrics ''a'', DoRecordVelocity ''a'',
         DoCheckForHype ''a'', DoRepoCreate ''a'', DoBroadcastHype ''a'', LogCancelled], Broke)
   \<and> snd (broadcast_metrics_loop
        [\<lparr>channels_list = [(''a'', quiet_env)], sleep_res = SleepCancelled,
          handler_sleep_res = Wakes\<rparr>]) \<noteq> Running
   \<and> tick_cancelled \<lparr>channels_list = [(''a'', quiet_env)], sleep_res = SleepCancelled,
          handler_sleep_res = Wakes\<rparr>"
proof -
  have z: "for_channels [(''z'', quiet_env)]
      = ([DoCalculateMetrics ''z'', DoRecordVelocity ''z'', DoCheckForHype ''z'',
          DoBroadcastMetrics ''z''], None)"
    by (simp add: quiet_channel_trace seq_def)
  note t1 = loop_failure_handling
    [of "[(''z'', quiet_env)]" "''a''" "quiet_env\<lparr>calculate_metrics_res := Raises Exception\<rparr>"
      "[(''b'', quiet_env)]" Wakes Wakes
      "[\<lparr>channels_list = [(''a'', quiet_env)], sleep_res = SleepCancelled,
          handler_sleep_res = Wakes\<rparr>]"]
  note t2 = loop_failure_handling
    [of "[(''z'', quiet_env)]" "''a''" "hype_env\<lparr>broadcast_hype_res := Raises CancelledError\<rparr>"
      "[(''b'', quiet_env)]" Wakes Wakes "[]"]
  have stop: "snd (broadcast_metrics_loop
        [\<lparr>channels_list = [(''a'', quiet_env)], sleep_res = SleepCancelled,
          handler_sleep_res = Wakes\<rparr>]) \<noteq> Running"
    by (simp add: tick_def quiet_channel_trace seq_def do_sleep_def)
  from t1 z failing_channel_trace have 1: "tick \<lparr>channels_list = [(''z'', quiet_env),
                           (''a'', quiet_env\<lparr>calculate_metrics_res := Raises Exception\<rparr>),
                           (''b'', quiet_env)],
         sleep_res = Wakes, handler_sleep_res = Wakes\<rparr>
     = ([DoCalculateMetrics ''z'', DoRecordVelocity ''z'', DoCheckForHype ''z'',
         DoBroadcastMetrics ''z'', DoCalculateMetrics ''a'', LogLoopError, DoSleep], Running)"
    by simp
  from t2 z cancelled_channel_trace have 2: "tick \<lparr>channels_list = [(''z'', quiet_env),
                           (''a'', hype_env\<lparr>broadcast_hype_res := Raises CancelledError\<rparr>),
                           (''b'', quiet_env)],
         sleep_res = Wakes, handler_sleep_res = Wakes\<rparr>
     = ([DoCalculateMetrics ''z'', DoRecordVelocity ''z'', DoCheckForHype ''z'',
         DoBroadcastMetrics ''z'', DoCalculateMetrics ''a'', DoRecordVelocity ''a'',
         DoCheckForHype ''a'', DoRepoCreate ''a'', DoBroadcastHype ''a'', LogCancelled], Broke)"
    by simp
  from t1 stop have 3: "tick_cancelled \<lparr>channels_list = [(''a'', quiet_env)],
          sleep_res = SleepCancelled, handler_sleep_res = Wakes\<rparr>"
    by simp
  from 1 2 stop 3 show ?thesis by blast
qed

text \<open>
  The claim as the specification states it fails twice: a channel whose metrics
  computation raises keeps the channel after it from being processed in that pass, and
  a cancellation raised while a hype event is being broadcast ends the loop in the
  middle of that channel, before its metrics are broadcast.
\<close>

theorem loop_failure_handling_counterexample:
  "tick \<lparr>channels_list = [(''a'', quiet_env\<lparr>calculate_metrics_res := Raises Exception\<rparr>),
                           (''b'', quiet_env)],
         sleep_res = Wakes, handler_sleep_res = Wakes\<rparr>
     = ([DoCalculateMetrics ''a'', LogLoopError, DoSleep], Running)
   \<and> DoCalculateMetrics ''b''
       \<notin> set (fst (tick \<lparr>channels_list =
                             [(''a'', quiet_env\<lparr>calculate_metrics_res := Raises Exception\<rparr>),
                              (''b'', quiet_env)],
                           sleep_res = Wakes, handler_sleep_res = Wakes\<rparr>))
   \<and> tick \<lparr>channels_list = [(''a'', hype_env\<lparr>broadcast_hype_res := Raises CancelledError\<rparr>),
                           (''b'', quiet_env)],
         sleep_res = Wakes, handler_sleep_res = Wakes\<rparr>
     = ([DoCalculateMetrics ''a'', DoRecordVelocity ''a'', DoCheckForHype ''a'',
         DoRepoCreate ''a'', DoBroadcastHype ''a'', LogCancelled], Broke)"
  by (simp add: tick_def failing_channel_trace cancelled_channel_trace quiet_channel_trace
      seq_def do_sleep_def)

end
